theory Spec2Isabelle
  imports Main "HOL-Library.Word" "HOL-Library.Multiset" "HOL-Library.List_Lexorder"
begin

section \<open>Text, errors and results\<close>

text \<open>
  A Python text string is a sequence of Unicode code points; a code point is modelled as a
  natural number, so that text beyond ASCII is one element per character, as in the source.
  A byte string is a list of 8-bit words.  Text is compared as Python compares it, code point
  by code point and with a proper prefix first, which is the lexicographic order on lists.
\<close>

type_synonym ustring = "nat list"

type_synonym bytestring = "8 word list"

abbreviation utext :: "string \<Rightarrow> ustring" where
  "utext s \<equiv> map of_char s"

text \<open>Every exception the embedded code can raise or let through is a value.\<close>

datatype pyerror =
    KeyError
  | NotImplementedError ustring
  | UnicodeDecodeError
  | UnicodeEncodeError
  | LookupError
  | TypeError
  | ValueError

type_synonym 'a result = "pyerror + 'a"

definition and_then :: "'a result \<Rightarrow> ('a \<Rightarrow> 'b result) \<Rightarrow> 'b result" where
  "and_then m f = (case m of Inl e \<Rightarrow> Inl e | Inr x \<Rightarrow> f x)"

section \<open>Number formatting\<close>

definition digit_char :: "nat \<Rightarrow> nat" where
  \<comment> \<open>the lower-case digit of a value below 16: \<open>0\<close>..\<open>9\<close>, \<open>a\<close>..\<open>f\<close>\<close>
  "digit_char d = (if d < 10 then 48 + d else 87 + d)"

function digits_in :: "nat \<Rightarrow> nat \<Rightarrow> ustring" where
  "digits_in b n =
     (if b < 2 \<or> n < b then [digit_char n]
      else digits_in b (n div b) @ [digit_char (n mod b)])"
  by pat_completeness auto
termination
  by (relation "measure (\<lambda>(b, n). n)") auto

definition zero_pad :: "nat \<Rightarrow> ustring \<Rightarrow> ustring" where
  "zero_pad w s = replicate (w - length s) 48 @ s"

definition format_04x :: "nat \<Rightarrow> ustring" where
  \<comment> \<open>\<^verbatim>\<open>'{0:04x}'.format(i)\<close>\<close>
  "format_04x i = zero_pad 4 (digits_in 16 i)"

definition int_text :: "int \<Rightarrow> ustring" where
  \<comment> \<open>the decimal text of an integer\<close>
  "int_text i = (if i < 0 then 45 # digits_in 10 (nat (- i)) else digits_in 10 (nat i))"

section \<open>String escaping\<close>

definition ESCAPE :: "nat \<Rightarrow> bool" where
  \<comment> \<open>the character class \<^verbatim>\<open>[\x00-\x1f\\"\b\f\n\r\t]\<close>\<close>
  "ESCAPE c \<longleftrightarrow>
     c \<le> 0x1f \<or> c = 92 \<or> c = 34 \<or> c = 8 \<or> c = 12 \<or> c = 10 \<or> c = 13 \<or> c = 9"

definition ESCAPE_DCT_literal :: "nat \<rightharpoonup> ustring" where
  "ESCAPE_DCT_literal = map_of
     [(92, [92, 92]),
      (34, [92, 34]),
      (8, [92, 98]),
      (12, [92, 102]),
      (10, [92, 110]),
      (13, [92, 114]),
      (9, [92, 116])]"

definition setdefault :: "('k \<rightharpoonup> 'v) \<Rightarrow> 'k \<Rightarrow> 'v \<Rightarrow> ('k \<rightharpoonup> 'v)" where
  "setdefault d k v = (case d k of None \<Rightarrow> d(k \<mapsto> v) | Some _ \<Rightarrow> d)"

definition ESCAPE_DCT :: "nat \<rightharpoonup> ustring" where
  \<comment> \<open>the literal table, then the loop over \<^verbatim>\<open>range(0x20)\<close>\<close>
  "ESCAPE_DCT =
     fold (\<lambda>i d. setdefault d i ([92, 117] @ format_04x i)) [0..<0x20] ESCAPE_DCT_literal"

definition replace :: "nat \<Rightarrow> ustring result" where
  "replace c = (case ESCAPE_DCT c of None \<Rightarrow> Inl KeyError | Some r \<Rightarrow> Inr r)"

fun ESCAPE_sub :: "(nat \<Rightarrow> ustring result) \<Rightarrow> ustring \<Rightarrow> ustring result" where
  "ESCAPE_sub repl [] = Inr []"
| "ESCAPE_sub repl (c # cs) =
     (if ESCAPE c
      then and_then (repl c) (\<lambda>r. and_then (ESCAPE_sub repl cs) (\<lambda>rest. Inr (r @ rest)))
      else and_then (ESCAPE_sub repl cs) (\<lambda>rest. Inr (c # rest)))"

definition unicode_escape :: "ustring \<Rightarrow> ustring result" where
  "unicode_escape string =
     and_then (ESCAPE_sub replace string) (\<lambda>t. Inr ([34] @ t @ [34]))"

section \<open>Values\<close>

text \<open>
  The objects the encoder can be handed.  Containers keep their elements in iteration order;
  a dictionary is the list of its items in iteration order.  A keyword holds the object it was
  built from, since the encoder builds keywords from text and from byte strings.  An object of
  any other class is known by the two texts the encoder reads from it: the text of its class
  and its \<^verbatim>\<open>repr\<close>.
\<close>

record pydate =
  year :: nat
  month :: nat
  day :: nat

record pydatetime = pydate +
  hour :: nat
  minute :: nat
  second :: nat
  microsecond :: nat
  utcoffset :: "int option"

datatype pyval =
    PNone
  | PBool bool
  | PInt int
  | PFloat "64 word"
  | PDecimal bool "nat list" int
  | PKeyword pyval
  | PSymbol ustring
  | PBytes bytestring
  | PStr ustring
  | PTuple "pyval list"
  | PList "pyval list"
  | PImmutableList "pyval list"
  | PSet "pyval list"
  | PFrozenset "pyval list"
  | PDict "(pyval \<times> pyval) list"
  | PImmutableDict "(pyval \<times> pyval) list"
  | PFraction int int
  | PDatetime pydatetime
  | PDate pydate
  | PUUID "128 word"
  | PTaggedElement ustring pyval
  | PObject ustring ustring

datatype pyclass =
    C_bool | C_int | C_long | C_float | C_Decimal | C_Keyword | C_Symbol | C_bytes
  | C_basestring | C_tuple | C_list | C_ImmutableList | C_set | C_frozenset | C_dict
  | C_ImmutableDict | C_Fraction | C_datetime | C_date | C_UUID | C_TaggedElement

section \<open>The Python runtime\<close>

text \<open>
  What the module takes from the interpreter and from other libraries is a parameter of the
  model: the interpreter's major version, the text of objects of classes that are not modelled
  here, the codecs, the comparison of arbitrary objects and the RFC 3339 generator.  Each of
  them may raise.  So may the conversion of an integer to text: from Python 3.11 on it raises
  \<^verbatim>\<open>ValueError\<close> when the integer has more digits than the interpreter's limit (4300
  unless reset; \<open>0\<close> stands for no limit, as before 3.11).
\<close>

record pylib =
  PY3 :: bool
  max_str_digits :: nat
  ext_unicode :: "pyval \<Rightarrow> ustring result"
  py2_str :: "pyval \<Rightarrow> ustring result"
  decode :: "bytestring \<Rightarrow> ustring \<Rightarrow> ustring result"
  encode :: "ustring \<Rightarrow> ustring \<Rightarrow> bytestring result"
  less :: "pyval \<Rightarrow> pyval \<Rightarrow> bool result"
  pyrfc3339_generate :: "pydatetime \<Rightarrow> bool \<Rightarrow> ustring result"

fun instance_of :: "pylib \<Rightarrow> pyval \<Rightarrow> pyclass \<Rightarrow> bool" where
  "instance_of lib PNone c = False"
| "instance_of lib (PBool b) c = (c = C_bool \<or> c = C_int \<or> (PY3 lib \<and> c = C_long))"
| "instance_of lib (PInt i) c = (c = C_int \<or> c = C_long)"
| "instance_of lib (PFloat f) c = (c = C_float)"
| "instance_of lib (PDecimal s ds e) c = (c = C_Decimal)"
| "instance_of lib (PKeyword n) c = (c = C_Keyword)"
| "instance_of lib (PSymbol n) c = (c = C_Symbol)"
| "instance_of lib (PBytes b) c = (c = C_bytes \<or> (\<not> PY3 lib \<and> c = C_basestring))"
| "instance_of lib (PStr s) c = (c = C_basestring)"
| "instance_of lib (PTuple xs) c = (c = C_tuple)"
| "instance_of lib (PList xs) c = (c = C_list)"
| "instance_of lib (PImmutableList xs) c = (c = C_ImmutableList)"
| "instance_of lib (PSet xs) c = (c = C_set)"
| "instance_of lib (PFrozenset xs) c = (c = C_frozenset)"
| "instance_of lib (PDict ps) c = (c = C_dict)"
| "instance_of lib (PImmutableDict ps) c = (c = C_ImmutableDict)"
| "instance_of lib (PFraction n d) c = (c = C_Fraction)"
| "instance_of lib (PDatetime dt) c = (c = C_datetime \<or> c = C_date)"
| "instance_of lib (PDate d) c = (c = C_date)"
| "instance_of lib (PUUID w) c = (c = C_UUID)"
| "instance_of lib (PTaggedElement t v) c = (c = C_TaggedElement)"
| "instance_of lib (PObject t r) c = False"

definition isinstance :: "pylib \<Rightarrow> pyval \<Rightarrow> pyclass list \<Rightarrow> bool" where
  "isinstance lib obj cs = list_ex (instance_of lib obj) cs"

text \<open>
  Modelled from the spec: the classes \<^verbatim>\<open>Keyword\<close> and \<^verbatim>\<open>Symbol\<close> of
  \<^verbatim>\<open>edn_lex\<close> are not among the sources.  The literal form of a keyword is a colon
  followed by its name, that of a symbol is its name.  The text of text is itself, the text of
  an integer its decimal digits, unless they exceed the runtime's limit; the text of every
  other object is the runtime's.
\<close>

definition int_str :: "pylib \<Rightarrow> int \<Rightarrow> ustring result" where
  \<comment> \<open>the text of an integer, refused when its digits exceed the limit\<close>
  "int_str lib i =
     (if 0 < max_str_digits lib \<and> max_str_digits lib < length (digits_in 10 (nat \<bar>i\<bar>))
      then Inl ValueError else Inr (int_text i))"

fun py_unicode :: "pylib \<Rightarrow> pyval \<Rightarrow> ustring result" where
  "py_unicode lib (PStr s) = Inr s"
| "py_unicode lib (PInt i) = int_str lib i"
| "py_unicode lib (PBool b) = Inr (if b then utext ''True'' else utext ''False'')"
| "py_unicode lib PNone = Inr (utext ''None'')"
| "py_unicode lib (PKeyword n) = and_then (py_unicode lib n) (\<lambda>t. Inr (58 # t))"
| "py_unicode lib (PSymbol n) = Inr n"
| "py_unicode lib obj = ext_unicode lib obj"

definition py_str :: "pylib \<Rightarrow> pyval \<Rightarrow> ustring result" where
  \<comment> \<open>\<^verbatim>\<open>str\<close>, which is \<^verbatim>\<open>unicode\<close> under Python 3\<close>
  "py_str lib obj = (if PY3 lib then py_unicode lib obj else py2_str lib obj)"

definition isoformat :: "pydate \<Rightarrow> ustring" where
  "isoformat d =
     zero_pad 4 (digits_in 10 (year d)) @ [45] @ zero_pad 2 (digits_in 10 (month d)) @ [45]
       @ zero_pad 2 (digits_in 10 (day d))"

subsection \<open>Reading an object\<close>

text \<open>
  Each reader is applied only after the type check that makes it meaningful; on any other
  object the source would raise, and the encoder never gets there.
\<close>

fun bool_of :: "pyval \<Rightarrow> bool" where
  "bool_of (PBool b) = b"
| "bool_of obj = False"

fun bytes_of :: "pyval \<Rightarrow> bytestring" where
  "bytes_of (PBytes b) = b"
| "bytes_of obj = []"

fun text_of :: "pyval \<Rightarrow> ustring" where
  "text_of (PStr s) = s"
| "text_of obj = []"

fun iter_of :: "pyval \<Rightarrow> pyval list" where
  "iter_of (PTuple xs) = xs"
| "iter_of (PList xs) = xs"
| "iter_of (PImmutableList xs) = xs"
| "iter_of (PSet xs) = xs"
| "iter_of (PFrozenset xs) = xs"
| "iter_of obj = []"

fun items_of :: "pyval \<Rightarrow> (pyval \<times> pyval) list" where
  "items_of (PDict ps) = ps"
| "items_of (PImmutableDict ps) = ps"
| "items_of obj = []"

fun numerator :: "pyval \<Rightarrow> int" where
  "numerator (PFraction n d) = n"
| "numerator obj = 0"

fun denominator :: "pyval \<Rightarrow> int" where
  "denominator (PFraction n d) = d"
| "denominator obj = 0"

fun datetime_of :: "pyval \<Rightarrow> pydatetime" where
  "datetime_of (PDatetime dt) = dt"
| "datetime_of obj = \<lparr>year = 0, month = 0, day = 0, hour = 0, minute = 0, second = 0,
     microsecond = 0, utcoffset = None\<rparr>"

fun date_of :: "pyval \<Rightarrow> pydate" where
  "date_of (PDate d) = d"
| "date_of obj = \<lparr>year = 0, month = 0, day = 0\<rparr>"

fun type_text :: "pyval \<Rightarrow> ustring" where
  "type_text (PObject t r) = t"
| "type_text obj = []"

fun repr_text :: "pyval \<Rightarrow> ustring" where
  "repr_text (PObject t r) = r"
| "repr_text obj = []"

section \<open>Sequencing and sorting\<close>

fun sequence :: "'a result list \<Rightarrow> 'a list result" where
  \<comment> \<open>the results of a comprehension: the first exception ends it\<close>
  "sequence [] = Inr []"
| "sequence (r # rs) = and_then r (\<lambda>x. and_then (sequence rs) (\<lambda>xs. Inr (x # xs)))"

fun join :: "ustring \<Rightarrow> ustring list \<Rightarrow> ustring" where
  "join sep [] = []"
| "join sep [t] = t"
| "join sep (t # ts) = t @ sep @ join sep ts"

definition chain_from_iterable :: "('a \<times> 'a) list \<Rightarrow> 'a list" where
  "chain_from_iterable pairs = concat (map (\<lambda>(k, v). [k, v]) pairs)"

text \<open>
  \<^verbatim>\<open>sorted(xs)\<close> is a stable sort by the runtime's \<^verbatim>\<open>&lt;\<close>, which may raise.  It is
  modelled as the stable insertion sort: for a comparison that is a strict weak order and does
  not raise, every stable sort returns the same list.
\<close>

fun insert_sorted :: "('a \<Rightarrow> 'a \<Rightarrow> bool result) \<Rightarrow> 'a \<Rightarrow> 'a list \<Rightarrow> 'a list result" where
  "insert_sorted lt x [] = Inr [x]"
| "insert_sorted lt x (y # ys) =
     and_then (lt y x) (\<lambda>b.
       if b then and_then (insert_sorted lt x ys) (\<lambda>r. Inr (y # r)) else Inr (x # y # ys))"

fun sorted_py :: "('a \<Rightarrow> 'a \<Rightarrow> bool result) \<Rightarrow> 'a list \<Rightarrow> 'a list result" where
  "sorted_py lt [] = Inr []"
| "sorted_py lt (x # xs) = and_then (sorted_py lt xs) (insert_sorted lt x)"

definition sorted_by_key :: "('a \<Rightarrow> ustring result) \<Rightarrow> 'a list \<Rightarrow> 'a list result" where
  \<comment> \<open>\<^verbatim>\<open>sorted(xs, key=f)\<close> with text keys: every key is computed first, then the list is
      sorted stably by the keys\<close>
  "sorted_by_key f xs =
     and_then (sequence (map f xs)) (\<lambda>ks. Inr (map snd (sort_key fst (zip ks xs))))"

section \<open>The dumper\<close>

text \<open>
  The constructor stores its six options.  Its last line, \<^verbatim>\<open>self._indent = \<close>, has no
  right-hand side: as the source stands Python refuses it with a syntax error.  Nothing reads
  the attribute; the record leaves it out, and \<open>Dumper_init\<close> is the constructor without that
  line.
\<close>

record Dumper =
  string_encoding :: ustring
  output_encoding :: "ustring option"
  keyword_keys :: bool
  sort_keys :: bool
  sort_sets :: bool
  pretty :: bool

definition DEFAULT_INPUT_ENCODING :: ustring where
  "DEFAULT_INPUT_ENCODING = utext ''utf-8''"

definition DEFAULT_OUTPUT_ENCODING :: ustring where
  "DEFAULT_OUTPUT_ENCODING = utext ''utf-8''"

definition Dumper_init ::
  "ustring \<Rightarrow> ustring option \<Rightarrow> bool \<Rightarrow> bool \<Rightarrow> bool \<Rightarrow> bool \<Rightarrow> Dumper" where
  "Dumper_init string_encoding' output_encoding' keyword_keys' sort_keys' sort_sets' pretty' =
     \<lparr>string_encoding = string_encoding', output_encoding = output_encoding',
      keyword_keys = keyword_keys', sort_keys = sort_keys', sort_sets = sort_sets',
      pretty = pretty'\<rparr>"

definition keyword_key :: "pylib \<Rightarrow> pyval \<times> pyval \<Rightarrow> pyval \<times> pyval" where
  \<comment> \<open>one item of the generator
      \<^verbatim>\<open>((Keyword(k) if isinstance(k, (bytes, basestring)) else k, v) for k, v in pairs)\<close>\<close>
  "keyword_key lib p =
     (case p of (k, v) \<Rightarrow> (if isinstance lib k [C_bytes, C_basestring] then PKeyword k else k, v))"

definition unsupported :: "pyval \<Rightarrow> pyerror" where
  "unsupported obj =
     NotImplementedError
       (utext ''encountered object of type '' @ [39] @ type_text obj @ [39]
          @ utext '' for which no known encoding is available: '' @ repr_text obj)"

section \<open>A reference runtime\<close>

text \<open>
  A Python 3 runtime cut down to what the examples below exercise, each part as CPython has
  it: the \<^verbatim>\<open>ascii\<close> codec, the text of a byte string (its \<^verbatim>\<open>repr\<close>), the order of
  integers, the limit of 4300 digits on the text of an integer, and RFC 3339 timestamps of
  datetimes in UTC, a datetime without a time zone being refused with \<^verbatim>\<open>ValueError\<close> as
  the generator does when naive datetimes are not accepted.  Every other request raises.
\<close>

definition two_hex :: "nat \<Rightarrow> ustring" where
  "two_hex n = [digit_char (n div 16 mod 16), digit_char (n mod 16)]"

definition bytes_repr_char :: "nat \<Rightarrow> nat \<Rightarrow> ustring" where
  "bytes_repr_char quote c =
     (if c = quote \<or> c = 92 then [92, c]
      else if c = 9 then [92, 116]
      else if c = 10 then [92, 110]
      else if c = 13 then [92, 114]
      else if c < 32 \<or> 127 \<le> c then [92, 120] @ two_hex c
      else [c])"

definition bytes_repr :: "bytestring \<Rightarrow> ustring" where
  "bytes_repr b =
     (let cs = map unat b;
          quote = (if 39 \<in> set cs \<and> 34 \<notin> set cs then 34 else 39)
      in [98, quote] @ concat (map (bytes_repr_char quote) cs) @ [quote])"

definition ascii_decode :: "bytestring \<Rightarrow> ustring result" where
  "ascii_decode b = (if list_all (\<lambda>w. unat w < 128) b then Inr (map unat b) else Inl UnicodeDecodeError)"

definition ascii_encode :: "ustring \<Rightarrow> bytestring result" where
  "ascii_encode s = (if list_all (\<lambda>c. c < 128) s then Inr (map of_nat s) else Inl UnicodeEncodeError)"

definition utc_timestamp :: "pydatetime \<Rightarrow> bool \<Rightarrow> ustring result" where
  "utc_timestamp dt microseconds =
     (if utcoffset dt = Some 0 then
        Inr (zero_pad 4 (digits_in 10 (year dt)) @ [45] @ zero_pad 2 (digits_in 10 (month dt))
             @ [45] @ zero_pad 2 (digits_in 10 (day dt)) @ [84]
             @ zero_pad 2 (digits_in 10 (hour dt)) @ [58]
             @ zero_pad 2 (digits_in 10 (minute dt)) @ [58]
             @ zero_pad 2 (digits_in 10 (second dt))
             @ (if microseconds then [46] @ zero_pad 6 (digits_in 10 (microsecond dt)) else [])
             @ [90])
      else Inl ValueError)"

definition python3 :: pylib where
  "python3 =
     \<lparr>PY3 = True,
      max_str_digits = 4300,
      ext_unicode = (\<lambda>obj. case obj of PBytes b \<Rightarrow> Inr (bytes_repr b) | _ \<Rightarrow> Inl TypeError),
      py2_str = (\<lambda>obj. Inl TypeError),
      decode = (\<lambda>b enc. if enc = utext ''ascii'' then ascii_decode b else Inl LookupError),
      encode = (\<lambda>s enc. if enc = utext ''ascii'' then ascii_encode s else Inl LookupError),
      less = (\<lambda>x y. case (x, y) of (PInt i, PInt j) \<Rightarrow> Inr (i < j) | _ \<Rightarrow> Inl TypeError),
      pyrfc3339_generate = utc_timestamp\<rparr>"

definition plain :: Dumper where
  \<comment> \<open>the options at their defaults, byte strings being ASCII\<close>
  "plain = Dumper_init (utext ''ascii'') None False False False False"

definition python2 :: pylib where
  \<comment> \<open>the same under Python 2, where \<^verbatim>\<open>str\<close> of text encodes it as ASCII\<close>
  "python2 =
     \<lparr>PY3 = False,
      max_str_digits = 0,
      ext_unicode = (\<lambda>obj. case obj of PBytes b \<Rightarrow> ascii_decode b | _ \<Rightarrow> Inl TypeError),
      py2_str = (\<lambda>obj. case obj of
          PStr s \<Rightarrow> if list_all (\<lambda>c. c < 128) s then Inr s else Inl UnicodeEncodeError
        | PBytes b \<Rightarrow> Inr (map unat b)
        | PInt i \<Rightarrow> Inr (int_text i)
        | _ \<Rightarrow> Inl TypeError),
      decode = (\<lambda>b enc. if enc = utext ''ascii'' then ascii_decode b else Inl LookupError),
      encode = (\<lambda>s enc. if enc = utext ''ascii'' then ascii_encode s else Inl LookupError),
      less = (\<lambda>x y. case (x, y) of (PInt i, PInt j) \<Rightarrow> Inr (i < j) | _ \<Rightarrow> Inl TypeError),
      pyrfc3339_generate = utc_timestamp\<rparr>"

section \<open>The specification's words\<close>

text \<open>
  The escaping contract as the specification words it: the seven named escapes, a
  four-digit \<^verbatim>\<open>\u\<close> escape for every other code point up to \<^verbatim>\<open>0x1F\<close>, and every other
  character itself, between two double quotes.
\<close>

definition hex4 :: "nat \<Rightarrow> ustring" where
  "hex4 c =
     [digit_char (c div 4096 mod 16), digit_char (c div 256 mod 16),
      digit_char (c div 16 mod 16), digit_char (c mod 16)]"

definition escaped_char :: "nat \<Rightarrow> ustring" where
  "escaped_char c =
     (if c = 92 then [92, 92]
      else if c = 34 then [92, 34]
      else if c = 8 then [92, 98]
      else if c = 12 then [92, 102]
      else if c = 10 then [92, 110]
      else if c = 13 then [92, 114]
      else if c = 9 then [92, 116]
      else if c \<le> 0x1F then [92, 117] @ hex4 c
      else [c])"

definition string_literal :: "ustring \<Rightarrow> ustring" where
  "string_literal s = [34] @ concat (map escaped_char s) @ [34]"

text \<open>
  Key coercion as the amended claim C8 words it: a key that is text or a byte string becomes
  a keyword, any other key stays.
\<close>

definition coerced_key :: "pyval \<Rightarrow> pyval" where
  "coerced_key k = (case k of PStr s \<Rightarrow> PKeyword k | PBytes b \<Rightarrow> PKeyword k | _ \<Rightarrow> k)"

text \<open>
  For the amended claim C3: the objects of a foreign class inside a value (in containers and
  among the keys and values of maps), and the errors of the operations the encoder calls on
  the parts of a value: the text of an integer, the text the runtime supplies for an object,
  decoding a byte string, sorting a set, the text of the keys of a map to be sorted, and the
  generation of a timestamp.
\<close>

fun foreign :: "pyval \<Rightarrow> pyval list" where
  "foreign (PObject t r) = [PObject t r]"
| "foreign (PTuple xs) = concat (map foreign xs)"
| "foreign (PList xs) = concat (map foreign xs)"
| "foreign (PImmutableList xs) = concat (map foreign xs)"
| "foreign (PSet xs) = concat (map foreign xs)"
| "foreign (PFrozenset xs) = concat (map foreign xs)"
| "foreign (PDict ps) = concat (map (\<lambda>(k, v). foreign k @ foreign v) ps)"
| "foreign (PImmutableDict ps) = concat (map (\<lambda>(k, v). foreign k @ foreign v) ps)"
| "foreign obj = []"

definition errors_of :: "'a result \<Rightarrow> pyerror set" where
  "errors_of r = (case r of Inl e \<Rightarrow> {e} | Inr x \<Rightarrow> {})"

fun raised :: "pylib \<Rightarrow> Dumper \<Rightarrow> pyval \<Rightarrow> pyerror set" where
  "raised lib self (PInt i) = errors_of (int_str lib i)"
| "raised lib self (PFloat f) = errors_of (py_unicode lib (PFloat f))"
| "raised lib self (PDecimal s ds e) = errors_of (py_unicode lib (PDecimal s ds e))"
| "raised lib self (PKeyword n) = errors_of (py_unicode lib (PKeyword n))"
| "raised lib self (PBytes b) = errors_of (decode lib b (string_encoding self))"
| "raised lib self (PTuple xs) = (\<Union>x\<in>set xs. raised lib self x)"
| "raised lib self (PList xs) = (\<Union>x\<in>set xs. raised lib self x)"
| "raised lib self (PImmutableList xs) = (\<Union>x\<in>set xs. raised lib self x)"
| "raised lib self (PSet xs) =
     (if sort_sets self then errors_of (sorted_py (less lib) xs) else {})
     \<union> (\<Union>x\<in>set xs. raised lib self x)"
| "raised lib self (PFrozenset xs) =
     (if sort_sets self then errors_of (sorted_py (less lib) xs) else {})
     \<union> (\<Union>x\<in>set xs. raised lib self x)"
| "raised lib self (PDict ps) =
     (if sort_keys self then (\<Union>p\<in>set ps. errors_of (py_str lib (fst p))) else {})
     \<union> (\<Union>(k, v)\<in>set ps.
           (if keyword_keys self \<and> isinstance lib k [C_bytes, C_basestring]
            then errors_of (py_unicode lib (PKeyword k)) else raised lib self k)
           \<union> raised lib self v)"
| "raised lib self (PImmutableDict ps) =
     (if sort_keys self then (\<Union>p\<in>set ps. errors_of (py_str lib (fst p))) else {})
     \<union> (\<Union>(k, v)\<in>set ps.
           (if keyword_keys self \<and> isinstance lib k [C_bytes, C_basestring]
            then errors_of (py_unicode lib (PKeyword k)) else raised lib self k)
           \<union> raised lib self v)"
| "raised lib self (PFraction n d) = errors_of (int_str lib n) \<union> errors_of (int_str lib d)"
| "raised lib self (PDatetime dt) = errors_of (pyrfc3339_generate lib dt True)"
| "raised lib self (PUUID w) = errors_of (py_unicode lib (PUUID w))"
| "raised lib self (PTaggedElement t v) = errors_of (py_unicode lib (PTaggedElement t v))"
| "raised lib self obj = {}"

section \<open>The encoder\<close>

text \<open>The measure of the recursion: how deeply containers are nested.\<close>

definition deepest :: "nat list \<Rightarrow> nat" where
  "deepest ns = Max (set (0 # ns))"

fun nesting :: "pyval \<Rightarrow> nat" where
  "nesting (PTuple xs) = Suc (deepest (map nesting xs))"
| "nesting (PList xs) = Suc (deepest (map nesting xs))"
| "nesting (PImmutableList xs) = Suc (deepest (map nesting xs))"
| "nesting (PSet xs) = Suc (deepest (map nesting xs))"
| "nesting (PFrozenset xs) = Suc (deepest (map nesting xs))"
| "nesting (PDict ps) = Suc (deepest (map (\<lambda>(k, v). max (nesting k) (nesting v)) ps))"
| "nesting (PImmutableDict ps) =
     Suc (deepest (map (\<lambda>(k, v). max (nesting k) (nesting v)) ps))"
| "nesting obj = 0"

text \<open>
  Facts the termination of the encoder rests on: what is sorted is a rearrangement of what
  was given.
\<close>

lemma and_then_cong [fundef_cong]:
  "m = m' \<Longrightarrow> (\<And>x. m' = Inr x \<Longrightarrow> f x = g x) \<Longrightarrow> and_then m f = and_then m' g"
  by (auto simp: and_then_def split: sum.splits)

lemma and_then_Inr_iff:
  "and_then m f = Inr y \<longleftrightarrow> (\<exists>x. m = Inr x \<and> f x = Inr y)"
  by (auto simp: and_then_def split: sum.splits)

lemma sequence_Inr_length: "sequence rs = Inr xs \<Longrightarrow> length xs = length rs"
  by (induction rs arbitrary: xs) (auto simp: and_then_Inr_iff)

lemma insert_sorted_set: "insert_sorted lt x ys = Inr zs \<Longrightarrow> set zs = insert x (set ys)"
  by (induction ys arbitrary: zs) (auto simp: and_then_Inr_iff split: if_splits)

lemma sorted_py_set: "sorted_py lt xs = Inr ys \<Longrightarrow> set ys = set xs"
  by (induction xs arbitrary: ys) (auto simp: and_then_Inr_iff dest: insert_sorted_set)

lemma sorted_by_key_mset: "sorted_by_key f xs = Inr ys \<Longrightarrow> mset ys = mset xs"
proof -
  assume "sorted_by_key f xs = Inr ys"
  then obtain ks where ks: "sequence (map f xs) = Inr ks"
    and ys: "ys = map snd (sort_key fst (zip ks xs))"
    by (auto simp: sorted_by_key_def and_then_Inr_iff)
  from ks have "length ks = length xs" by (auto dest: sequence_Inr_length)
  then have "map snd (zip ks xs) = xs" by simp
  then have "mset xs = image_mset snd (mset (zip ks xs))" by (metis mset_map)
  also have "\<dots> = image_mset snd (mset (sort_key fst (zip ks xs)))" by simp
  finally show ?thesis using ys by simp
qed

lemma sorted_by_key_set: "sorted_by_key f xs = Inr ys \<Longrightarrow> set ys = set xs"
  by (metis sorted_by_key_mset set_mset_mset)

lemma deepest_ge: "x \<in> set ns \<Longrightarrow> x \<le> deepest ns"
  by (simp add: deepest_def)

lemma deepest_le: "(\<And>x. x \<in> set ns \<Longrightarrow> x \<le> n) \<Longrightarrow> deepest ns \<le> n"
  by (auto simp: deepest_def)

lemma nesting_iter_of: "x \<in> set (iter_of obj) \<Longrightarrow> nesting x < nesting obj"
  by (cases obj) (auto simp: less_Suc_eq_le intro!: deepest_ge)

lemma nesting_items_of:
  assumes "p \<in> set (items_of obj)"
  shows "nesting (fst p) < nesting obj" and "nesting (snd p) < nesting obj"
proof -
  let ?ns = "map (\<lambda>(k, v). max (nesting k) (nesting v)) (items_of obj)"
  have "max (nesting (fst p)) (nesting (snd p)) \<in> set ?ns"
    using assms by (force simp: case_prod_beta)
  then have "max (nesting (fst p)) (nesting (snd p)) \<le> deepest ?ns"
    by (rule deepest_ge)
  moreover have "nesting obj = Suc (deepest ?ns)"
    using assms by (cases obj) auto
  ultimately show "nesting (fst p) < nesting obj" and "nesting (snd p) < nesting obj"
    by auto
qed

lemma nesting_keyword_key:
  "nesting (fst (keyword_key lib p)) \<le> nesting (fst p)" "snd (keyword_key lib p) = snd p"
  by (auto simp: keyword_key_def split: prod.splits)

lemma chain_from_iterable_set:
  "x \<in> set (chain_from_iterable ps) \<longleftrightarrow> (\<exists>p\<in>set ps. x = fst p \<or> x = snd p)"
  by (force simp: chain_from_iterable_def)

lemma deepest_nesting_less:
  "(\<And>x. x \<in> set xs \<Longrightarrow> nesting x < nesting obj) \<Longrightarrow> 0 < nesting obj
   \<Longrightarrow> deepest (map nesting xs) < nesting obj"
proof -
  assume a: "\<And>x. x \<in> set xs \<Longrightarrow> nesting x < nesting obj" and b: "0 < nesting obj"
  have "deepest (map nesting xs) \<le> nesting obj - 1"
    by (rule deepest_le) (use a in fastforce)
  with b show ?thesis by simp
qed

lemma nesting_container_pos:
  "isinstance lib obj [C_tuple] \<or> isinstance lib obj [C_list, C_ImmutableList]
   \<or> isinstance lib obj [C_set] \<or> isinstance lib obj [C_frozenset]
   \<or> isinstance lib obj [C_dict] \<or> isinstance lib obj [C_ImmutableDict] \<Longrightarrow> 0 < nesting obj"
  by (cases obj) (auto simp: isinstance_def)

lemma nesting_chain_less:
  assumes "set pairs = set (items_of obj)" "x \<in> set (chain_from_iterable
             (if kk then map (keyword_key lib) pairs else pairs))"
  shows "nesting x < nesting obj"
proof -
  from assms(2) obtain p where p: "p \<in> set pairs"
    and x: "x = fst p \<or> x = snd p \<or> x = fst (keyword_key lib p)"
    by (auto simp: chain_from_iterable_set nesting_keyword_key split: if_splits)
  from p assms(1) have "p \<in> set (items_of obj)" by simp
  then have "nesting (fst p) < nesting obj" "nesting (snd p) < nesting obj"
    by (rule nesting_items_of)+
  moreover have "nesting (fst (keyword_key lib p)) \<le> nesting (fst p)"
    by (rule nesting_keyword_key)
  ultimately show ?thesis using x by auto
qed

text \<open>
  The two methods \<^verbatim>\<open>_dump_seq\<close> and \<^verbatim>\<open>_dump\<close> of the class, which call each other.
  The type checks are in the order of the source and the first that matches decides.
\<close>

function Dumper__dump_seq :: "pylib \<Rightarrow> Dumper \<Rightarrow> pyval list \<Rightarrow> ustring result"
  and Dumper__dump :: "pylib \<Rightarrow> Dumper \<Rightarrow> pyval \<Rightarrow> ustring result" where
  "Dumper__dump_seq lib self objs =
     and_then (sequence (map (Dumper__dump lib self) objs)) (\<lambda>ts. Inr (join [32] ts))"
| "Dumper__dump lib self obj =
     (if obj = PNone then Inr (utext ''nil'')
      else if isinstance lib obj [C_bool] then
        Inr (if bool_of obj then utext ''true'' else utext ''false'')
      else if isinstance lib obj [C_int, C_long, C_float] then py_unicode lib obj
      else if isinstance lib obj [C_Decimal] then
        and_then (py_unicode lib obj) (\<lambda>t. Inr (t @ utext ''M''))
      else if isinstance lib obj [C_Keyword, C_Symbol] then py_unicode lib obj
      else if isinstance lib obj [C_bytes] then
        and_then (decode lib (bytes_of obj) (string_encoding self)) unicode_escape
      else if isinstance lib obj [C_basestring] then unicode_escape (text_of obj)
      else if isinstance lib obj [C_tuple] then
        and_then (Dumper__dump_seq lib self (iter_of obj)) (\<lambda>t. Inr (utext ''('' @ t @ utext '')''))
      else if isinstance lib obj [C_list, C_ImmutableList] then
        and_then (Dumper__dump_seq lib self (iter_of obj)) (\<lambda>t. Inr (utext ''['' @ t @ utext '']''))
      else if isinstance lib obj [C_set] \<or> isinstance lib obj [C_frozenset] then
        and_then (if sort_sets self then sorted_py (less lib) (iter_of obj) else Inr (iter_of obj))
          (\<lambda>objs. and_then (Dumper__dump_seq lib self objs)
             (\<lambda>t. Inr (utext ''#{'' @ t @ utext ''}'')))
      else if isinstance lib obj [C_dict] \<or> isinstance lib obj [C_ImmutableDict] then
        and_then
          (if sort_keys self then sorted_by_key (\<lambda>p. py_str lib (fst p)) (items_of obj)
           else Inr (items_of obj))
          (\<lambda>pairs. and_then
             (Dumper__dump_seq lib self
                (chain_from_iterable
                   (if keyword_keys self then map (keyword_key lib) pairs else pairs)))
             (\<lambda>t. Inr (utext ''{'' @ t @ utext ''}'')))
      else if isinstance lib obj [C_Fraction] then
        and_then (int_str lib (numerator obj)) (\<lambda>n.
          and_then (int_str lib (denominator obj)) (\<lambda>d. Inr (n @ utext ''/'' @ d)))
      else if isinstance lib obj [C_datetime] then
        and_then (pyrfc3339_generate lib (datetime_of obj) True)
          (\<lambda>t. Inr (utext ''#inst '' @ [34] @ t @ [34]))
      else if isinstance lib obj [C_date] then
        Inr (utext ''#inst '' @ [34] @ isoformat (date_of obj) @ [34])
      else if isinstance lib obj [C_UUID] then
        and_then (py_unicode lib obj) (\<lambda>t. Inr (utext ''#uuid '' @ [34] @ t @ [34]))
      else if isinstance lib obj [C_TaggedElement] then py_unicode lib obj
      else Inl (unsupported obj))"
  by pat_completeness auto

termination
proof (relation "measure (\<lambda>a. case a of
          Inl (lib, self, objs) \<Rightarrow> 2 * deepest (map nesting objs) + 1
        | Inr (lib, self, obj) \<Rightarrow> 2 * nesting obj)", goal_cases)
  case 1
  show ?case by simp
next
  case (2 lib self objs x)
  then show ?case by (simp add: deepest_ge less_Suc_eq_le)
next
  case (3 lib self obj)
  then have "0 < nesting obj" by (metis nesting_container_pos)
  then show ?case using deepest_nesting_less[of "iter_of obj" obj]
    by (simp add: nesting_iter_of)
next
  case (4 lib self obj)
  then have "0 < nesting obj" by (metis nesting_container_pos)
  then show ?case using deepest_nesting_less[of "iter_of obj" obj]
    by (simp add: nesting_iter_of)
next
  case (5 lib self obj objs)
  then have pos: "0 < nesting obj" by (metis nesting_container_pos)
  from 5 have "set objs = set (iter_of obj)"
    by (auto split: if_splits dest: sorted_py_set)
  then have "deepest (map nesting objs) < nesting obj"
    using pos by (intro deepest_nesting_less) (auto simp: nesting_iter_of)
  then show ?case by simp
next
  case (6 lib self obj pairs)
  then have pos: "0 < nesting obj" by (metis nesting_container_pos)
  from 6 have "set pairs = set (items_of obj)"
    by (auto split: if_splits dest: sorted_by_key_set)
  then have "deepest (map nesting (chain_from_iterable
             (if keyword_keys self then map (keyword_key lib) pairs else pairs))) < nesting obj"
    using pos by (intro deepest_nesting_less) (auto intro: nesting_chain_less)
  then show ?case by simp
qed


datatype pyoutput = Text ustring | Bytes bytestring

definition Dumper_dump :: "pylib \<Rightarrow> Dumper \<Rightarrow> pyval \<Rightarrow> pyoutput result" where
  \<comment> \<open>\<^verbatim>\<open>if self.output_encoding\<close> holds for a name that is neither \<^verbatim>\<open>None\<close> nor empty\<close>
  "Dumper_dump lib self obj =
     and_then (Dumper__dump lib self obj) (\<lambda>s.
       case output_encoding self of
         None \<Rightarrow> Inr (Text s)
       | Some enc \<Rightarrow>
           if enc = [] then Inr (Text s)
           else and_then (encode lib s enc) (\<lambda>b. Inr (Bytes b)))"

definition dump ::
  "pylib \<Rightarrow> pyval \<Rightarrow> ustring \<Rightarrow> ustring option \<Rightarrow> bool \<Rightarrow> bool \<Rightarrow> bool \<Rightarrow> bool
     \<Rightarrow> pyoutput result" where
  "dump lib obj string_encoding' output_encoding' keyword_keys' sort_keys' sort_sets' pretty' =
     Dumper_dump lib
       (Dumper_init string_encoding' (if PY3 lib then None else output_encoding')
          keyword_keys' sort_keys' sort_sets' pretty')
       obj"

text \<open>
  For the amended claim C3: encoding the value either succeeds, and then the value holds no
  object of a foreign class and no operation on its parts raises, or it fails with the
  unsupported-type error of such an object or with an error one of the operations raises.
\<close>

definition classified :: "pylib \<Rightarrow> Dumper \<Rightarrow> pyval \<Rightarrow> bool" where
  "classified lib self obj =
     (case Dumper__dump lib self obj of
        Inr s \<Rightarrow> foreign obj = [] \<and> raised lib self obj = {}
      | Inl e \<Rightarrow> e \<in> unsupported ` set (foreign obj) \<union> raised lib self obj)"

section \<open>The encoder, one class at a time\<close>

declare Dumper__dump.simps [simp del] Dumper__dump_seq.simps [simp del]

lemma and_then_Inr [simp]: "and_then (Inr x) f = f x"
  by (simp add: and_then_def)

lemma and_then_Inl [simp]: "and_then (Inl e) f = Inl e"
  by (simp add: and_then_def)

lemma and_then_Inl_iff:
  "and_then m f = Inl e \<longleftrightarrow> m = Inl e \<or> (\<exists>x. m = Inr x \<and> f x = Inl e)"
  by (auto simp: and_then_def split: sum.splits)

declare digits_in.simps [simp del]

lemma digits_in_small: "n < b \<Longrightarrow> digits_in b n = [digit_char n]"
  by (subst digits_in.simps) simp

lemma digits_in_two:
  "2 \<le> b \<Longrightarrow> b \<le> n \<Longrightarrow> n < b * b
   \<Longrightarrow> digits_in b n = [digit_char (n div b), digit_char (n mod b)]"
  by (subst digits_in.simps) (simp add: digits_in_small less_mult_imp_div_less)

lemma int_str_digit [simp]: "0 \<le> i \<Longrightarrow> i < 10 \<Longrightarrow> int_str lib i = Inr (int_text i)"
proof -
  assume "0 \<le> i" "i < 10"
  then have "nat \<bar>i\<bar> < 10" by simp
  then have "length (digits_in 10 (nat \<bar>i\<bar>)) = 1" by (simp add: digits_in_small)
  then show ?thesis by (auto simp: int_str_def)
qed

lemma dump_PNone: "Dumper__dump lib self PNone = Inr (utext ''nil'')"
  by (simp add: Dumper__dump.simps)

lemma dump_PBool:
  "Dumper__dump lib self (PBool b) = Inr (if b then utext ''true'' else utext ''false'')"
  by (simp add: Dumper__dump.simps isinstance_def)

lemma dump_PInt: "Dumper__dump lib self (PInt i) = int_str lib i"
  by (simp add: Dumper__dump.simps isinstance_def)

lemma dump_PFloat: "Dumper__dump lib self (PFloat f) = ext_unicode lib (PFloat f)"
  by (simp add: Dumper__dump.simps isinstance_def)

lemma dump_PDecimal:
  "Dumper__dump lib self (PDecimal s ds e) =
     and_then (ext_unicode lib (PDecimal s ds e)) (\<lambda>t. Inr (t @ utext ''M''))"
  by (simp add: Dumper__dump.simps isinstance_def)

lemma dump_PKeyword:
  "Dumper__dump lib self (PKeyword n) = and_then (py_unicode lib n) (\<lambda>t. Inr (58 # t))"
  by (simp add: Dumper__dump.simps isinstance_def)

lemma dump_PSymbol: "Dumper__dump lib self (PSymbol n) = Inr n"
  by (simp add: Dumper__dump.simps isinstance_def)

lemma dump_PBytes:
  "Dumper__dump lib self (PBytes b) =
     and_then (decode lib b (string_encoding self)) unicode_escape"
  by (simp add: Dumper__dump.simps isinstance_def)

lemma dump_PStr: "Dumper__dump lib self (PStr s) = unicode_escape s"
  by (simp add: Dumper__dump.simps isinstance_def)

lemma dump_PTuple:
  "Dumper__dump lib self (PTuple xs) =
     and_then (Dumper__dump_seq lib self xs) (\<lambda>t. Inr (utext ''('' @ t @ utext '')''))"
  by (simp add: Dumper__dump.simps isinstance_def)

lemma dump_PList:
  "Dumper__dump lib self (PList xs) =
     and_then (Dumper__dump_seq lib self xs) (\<lambda>t. Inr (utext ''['' @ t @ utext '']''))"
  by (simp add: Dumper__dump.simps isinstance_def)

lemma dump_PImmutableList:
  "Dumper__dump lib self (PImmutableList xs) =
     and_then (Dumper__dump_seq lib self xs) (\<lambda>t. Inr (utext ''['' @ t @ utext '']''))"
  by (simp add: Dumper__dump.simps isinstance_def)

lemma dump_PSet:
  "Dumper__dump lib self (PSet xs) =
     and_then (if sort_sets self then sorted_py (less lib) xs else Inr xs)
       (\<lambda>objs. and_then (Dumper__dump_seq lib self objs)
          (\<lambda>t. Inr (utext ''#{'' @ t @ utext ''}'')))"
  by (simp add: Dumper__dump.simps isinstance_def)

lemma dump_PFrozenset:
  "Dumper__dump lib self (PFrozenset xs) =
     and_then (if sort_sets self then sorted_py (less lib) xs else Inr xs)
       (\<lambda>objs. and_then (Dumper__dump_seq lib self objs)
          (\<lambda>t. Inr (utext ''#{'' @ t @ utext ''}'')))"
  by (simp add: Dumper__dump.simps isinstance_def)

lemma dump_PDict:
  "Dumper__dump lib self (PDict ps) =
     and_then
       (if sort_keys self then sorted_by_key (\<lambda>p. py_str lib (fst p)) ps else Inr ps)
       (\<lambda>pairs. and_then
          (Dumper__dump_seq lib self
             (chain_from_iterable
                (if keyword_keys self then map (keyword_key lib) pairs else pairs)))
          (\<lambda>t. Inr (utext ''{'' @ t @ utext ''}'')))"
  by (simp add: Dumper__dump.simps isinstance_def)

lemma dump_PImmutableDict:
  "Dumper__dump lib self (PImmutableDict ps) =
     and_then
       (if sort_keys self then sorted_by_key (\<lambda>p. py_str lib (fst p)) ps else Inr ps)
       (\<lambda>pairs. and_then
          (Dumper__dump_seq lib self
             (chain_from_iterable
                (if keyword_keys self then map (keyword_key lib) pairs else pairs)))
          (\<lambda>t. Inr (utext ''{'' @ t @ utext ''}'')))"
  by (simp add: Dumper__dump.simps isinstance_def)

lemma dump_PFraction:
  "Dumper__dump lib self (PFraction n d) =
     and_then (int_str lib n) (\<lambda>n'. and_then (int_str lib d) (\<lambda>d'. Inr (n' @ utext ''/'' @ d')))"
  by (simp add: Dumper__dump.simps isinstance_def)

lemma dump_PDatetime:
  "Dumper__dump lib self (PDatetime dt) =
     and_then (pyrfc3339_generate lib dt True) (\<lambda>t. Inr (utext ''#inst '' @ [34] @ t @ [34]))"
  by (simp add: Dumper__dump.simps isinstance_def)

lemma dump_PDate:
  "Dumper__dump lib self (PDate d) = Inr (utext ''#inst '' @ [34] @ isoformat d @ [34])"
  by (simp add: Dumper__dump.simps isinstance_def)

lemma dump_PUUID:
  "Dumper__dump lib self (PUUID w) =
     and_then (ext_unicode lib (PUUID w)) (\<lambda>t. Inr (utext ''#uuid '' @ [34] @ t @ [34]))"
  by (simp add: Dumper__dump.simps isinstance_def)

lemma dump_PTaggedElement:
  "Dumper__dump lib self (PTaggedElement t v) = ext_unicode lib (PTaggedElement t v)"
  by (simp add: Dumper__dump.simps isinstance_def)

lemma dump_PObject: "Dumper__dump lib self (PObject t r) = Inl (unsupported (PObject t r))"
  by (simp add: Dumper__dump.simps isinstance_def)

lemmas dump_simps = dump_PNone dump_PBool dump_PInt dump_PFloat dump_PDecimal dump_PKeyword
  dump_PSymbol dump_PBytes dump_PStr dump_PTuple dump_PList dump_PImmutableList dump_PSet
  dump_PFrozenset dump_PDict dump_PImmutableDict dump_PFraction dump_PDatetime dump_PDate
  dump_PUUID dump_PTaggedElement dump_PObject

lemma dump_seq_Nil: "Dumper__dump_seq lib self [] = Inr []"
  by (simp add: Dumper__dump_seq.simps)


section \<open>Which options the encoder reads\<close>

text \<open>
  The text of a value depends on four options only: the input encoding, the two key options
  and the set option.  The proof goes by the depth of nesting, as the termination does.
\<close>

lemma dump_seq_cong:
  assumes "\<And>x. x \<in> set objs \<Longrightarrow> Dumper__dump lib self' x = Dumper__dump lib self x"
  shows "Dumper__dump_seq lib self' objs = Dumper__dump_seq lib self objs"
proof -
  have "map (Dumper__dump lib self') objs = map (Dumper__dump lib self) objs"
    using assms by simp
  then show ?thesis unfolding Dumper__dump_seq.simps by (rule arg_cong)
qed

lemma sorted_choice_set:
  "(if b then sorted_py lt xs else Inr xs) = Inr ys \<Longrightarrow> set ys = set xs"
  by (auto split: if_splits dest: sorted_py_set)

lemma sorted_key_choice_set:
  "(if b then sorted_by_key f xs else Inr xs) = Inr ys \<Longrightarrow> set ys = set xs"
  by (auto split: if_splits dest: sorted_by_key_set)

lemma nesting_sorted_elem:
  assumes "(if b then sorted_py lt (iter_of obj) else Inr (iter_of obj)) = Inr ys" "x \<in> set ys"
  shows "nesting x < nesting obj"
  using assms sorted_choice_set nesting_iter_of by blast

lemma nesting_sorted_item:
  assumes "(if b then sorted_by_key f (items_of obj) else Inr (items_of obj)) = Inr pairs"
    "x \<in> set (chain_from_iterable (if kk then map (keyword_key lib) pairs else pairs))"
  shows "nesting x < nesting obj"
  using assms sorted_key_choice_set nesting_chain_less by blast

lemma dump_options:
  assumes "string_encoding self' = string_encoding self" "keyword_keys self' = keyword_keys self"
    "sort_keys self' = sort_keys self" "sort_sets self' = sort_sets self"
  shows "Dumper__dump lib self' obj = Dumper__dump lib self obj"
proof (induction obj rule: measure_induct_rule[where f = nesting])
  case (less obj)
  have seq: "Dumper__dump_seq lib self' xs = Dumper__dump_seq lib self xs"
    if "\<And>x. x \<in> set xs \<Longrightarrow> nesting x < nesting obj" for xs
    by (rule dump_seq_cong) (simp add: less that)
  have lists: "Dumper__dump_seq lib self' xs = Dumper__dump_seq lib self xs"
    if "xs = iter_of obj" for xs
    unfolding that by (rule seq) (rule nesting_iter_of)
  have sets: "and_then (if sort_sets self then sorted_py (pylib.less lib) xs else Inr xs)
       (\<lambda>objs. and_then (Dumper__dump_seq lib self' objs) g)
     = and_then (if sort_sets self then sorted_py (pylib.less lib) xs else Inr xs)
       (\<lambda>objs. and_then (Dumper__dump_seq lib self objs) g)"
    if "xs = iter_of obj" for g xs
  proof (rule and_then_cong[OF refl])
    fix ys
    assume "(if sort_sets self then sorted_py (pylib.less lib) xs else Inr xs) = Inr ys"
    then have "\<And>x. x \<in> set ys \<Longrightarrow> nesting x < nesting obj"
      unfolding that by (rule nesting_sorted_elem)
    then show "and_then (Dumper__dump_seq lib self' ys) g = and_then (Dumper__dump_seq lib self ys) g"
      by (simp only: seq)
  qed
  have dicts: "and_then (if sort_keys self then sorted_by_key (\<lambda>p. py_str lib (fst p)) ps else Inr ps)
       (\<lambda>pairs. and_then (Dumper__dump_seq lib self'
           (chain_from_iterable (if keyword_keys self then map (keyword_key lib) pairs else pairs))) g)
     = and_then (if sort_keys self then sorted_by_key (\<lambda>p. py_str lib (fst p)) ps else Inr ps)
       (\<lambda>pairs. and_then (Dumper__dump_seq lib self
           (chain_from_iterable (if keyword_keys self then map (keyword_key lib) pairs else pairs))) g)"
    if "ps = items_of obj" for g ps
  proof (rule and_then_cong[OF refl])
    fix qs
    assume "(if sort_keys self then sorted_by_key (\<lambda>p. py_str lib (fst p)) ps else Inr ps) = Inr qs"
    then have "\<And>x. x \<in> set (chain_from_iterable
        (if keyword_keys self then map (keyword_key lib) qs else qs)) \<Longrightarrow> nesting x < nesting obj"
      unfolding that by (rule nesting_sorted_item)
    then show "and_then (Dumper__dump_seq lib self'
           (chain_from_iterable (if keyword_keys self then map (keyword_key lib) qs else qs))) g
      = and_then (Dumper__dump_seq lib self
           (chain_from_iterable (if keyword_keys self then map (keyword_key lib) qs else qs))) g"
      by (simp only: seq)
  qed
  show ?case
  proof (cases obj)
    case (PTuple xs)
    then have "xs = iter_of obj" by simp
    from lists[OF this] show ?thesis by (simp add: PTuple dump_simps)
  next
    case (PList xs)
    then have "xs = iter_of obj" by simp
    from lists[OF this] show ?thesis by (simp add: PList dump_simps)
  next
    case (PImmutableList xs)
    then have "xs = iter_of obj" by simp
    from lists[OF this] show ?thesis by (simp add: PImmutableList dump_simps)
  next
    case (PSet xs)
    then have "xs = iter_of obj" by simp
    from sets[OF this] show ?thesis unfolding PSet dump_PSet assms .
  next
    case (PFrozenset xs)
    then have "xs = iter_of obj" by simp
    from sets[OF this] show ?thesis unfolding PFrozenset dump_PFrozenset assms .
  next
    case (PDict ps)
    then have "ps = items_of obj" by simp
    from dicts[OF this] show ?thesis unfolding PDict dump_PDict assms .
  next
    case (PImmutableDict ps)
    then have "ps = items_of obj" by simp
    from dicts[OF this] show ?thesis unfolding PImmutableDict dump_PImmutableDict assms .
  qed (simp_all add: dump_simps assms)
qed

section \<open>String escaping meets its contract\<close>

lemma fold_setdefault:
  "fold (\<lambda>i d. setdefault d i (g i)) [0..<n] d0 c =
     (case d0 c of Some v \<Rightarrow> Some v | None \<Rightarrow> if c < n then Some (g c) else None)"
  by (induction n) (auto simp: setdefault_def split: option.splits)

lemma zero_pad_1: "zero_pad 4 [a] = [48, 48, 48, a]"
  by (simp add: zero_pad_def numeral_eq_Suc)

lemma zero_pad_2: "zero_pad 4 [a, b] = [48, 48, a, b]"
  by (simp add: zero_pad_def numeral_eq_Suc)

lemma format_04x_hex4: "c < 256 \<Longrightarrow> format_04x c = hex4 c"
proof (cases "c < 16")
  case True
  then have "digits_in 16 c = [digit_char c]" by (rule digits_in_small)
  moreover from True have "c div 4096 = 0" "c div 256 = 0" "c div 16 = 0" by simp_all
  ultimately show ?thesis
    using True by (simp add: format_04x_def hex4_def zero_pad_1 digit_char_def)
next
  case False
  assume "c < 256"
  with False have "digits_in 16 c = [digit_char (c div 16), digit_char (c mod 16)]"
    by (intro digits_in_two) simp_all
  moreover from \<open>c < 256\<close> have "c div 4096 = 0" "c div 256 = 0" "c div 16 < 16"
    by (simp_all add: less_mult_imp_div_less)
  ultimately show ?thesis
    by (simp add: format_04x_def hex4_def zero_pad_2 digit_char_def)
qed

lemma ESCAPE_DCT_apply:
  "ESCAPE_DCT c =
     (case ESCAPE_DCT_literal c of Some v \<Rightarrow> Some v
      | None \<Rightarrow> if c < 0x20 then Some ([92, 117] @ format_04x c) else None)"
  unfolding ESCAPE_DCT_def by (rule fold_setdefault)

lemma replace_escaped: "ESCAPE c \<Longrightarrow> replace c = Inr (escaped_char c)"
  by (auto simp: replace_def ESCAPE_DCT_apply ESCAPE_DCT_literal_def ESCAPE_def escaped_char_def
      format_04x_hex4)

lemma not_ESCAPE_escaped: "\<not> ESCAPE c \<Longrightarrow> escaped_char c = [c]"
  by (auto simp: ESCAPE_def escaped_char_def)

lemma ESCAPE_sub_replace: "ESCAPE_sub replace s = Inr (concat (map escaped_char s))"
  by (induction s) (simp_all add: replace_escaped not_ESCAPE_escaped)

lemma unicode_escape_string_literal: "unicode_escape s = Inr (string_literal s)"
  by (simp add: unicode_escape_def ESCAPE_sub_replace string_literal_def)

text \<open>
  Claim C1.  For every text \<open>s\<close>, escaping \<open>s\<close> succeeds and yields the double-quoted literal
  in which backslash, double quote, backspace, form feed, newline, carriage return and tab are
  replaced by their two-character escapes, every other code point up to \<^verbatim>\<open>0x1F\<close> by a
  four-digit \<^verbatim>\<open>\u\<close> escape, and every other character is kept; this is what the encoder
  returns for a string, and the empty text gives the two-character literal.
\<close>

theorem C1_unicode_escape:
  "unicode_escape s = Inr (string_literal s)
   \<and> Dumper__dump lib self (PStr s) = Inr (string_literal s)
   \<and> unicode_escape [] = Inr [34, 34]"
  by (simp add: unicode_escape_string_literal dump_PStr string_literal_def)

section \<open>The order of the type checks\<close>

lemma int_text_0: "int_text 0 = [48]" by (simp add: int_text_def digits_in_small digit_char_def)
lemma int_text_1: "int_text 1 = [49]" by (simp add: int_text_def digits_in_small digit_char_def)

text \<open>
  Claim C5.  Booleans are integers for the type checks, yet the boolean check comes first:
  for every boolean the encoder returns exactly \<^verbatim>\<open>true\<close> or \<^verbatim>\<open>false\<close>, although the
  integer check would accept the value too, and the result is never the decimal rendering of
  the boolean's integer value, nor what the encoder returns for that integer.
\<close>

theorem C5_boolean_before_integer:
  "Dumper__dump lib self (PBool b) = Inr (if b then utext ''true'' else utext ''false'')
   \<and> isinstance lib (PBool b) [C_int, C_long, C_float]
   \<and> Dumper__dump lib self (PBool b) \<noteq> Inr (int_text (if b then 1 else 0))
   \<and> Dumper__dump lib self (PBool b) \<noteq> Dumper__dump lib self (PInt (if b then 1 else 0))"
  by (simp add: dump_PBool dump_PInt isinstance_def int_text_0 int_text_1)

text \<open>
  Claim C7, as stated, fails: the RFC 3339 generator refuses a datetime without a time zone
  with \<^verbatim>\<open>ValueError\<close>, and so does the encoder.
\<close>

theorem C7_counterexample:
  "Dumper__dump python3 plain
      (PDatetime \<lparr>year = 2020, month = 1, day = 2, hour = 3, minute = 4, second = 5,
         microsecond = 6, utcoffset = None\<rparr>) = Inl ValueError
   \<and> pyrfc3339_generate python3
      \<lparr>year = 2020, month = 1, day = 2, hour = 3, minute = 4, second = 5, microsecond = 6,
       utcoffset = None\<rparr> True = Inl ValueError"
  by (simp add: dump_PDatetime python3_def utc_timestamp_def)

text \<open>
  Claim C7, amended.  A datetime encodes as \<^verbatim>\<open>#inst\<close> followed by the quoted RFC 3339
  text that the generator returns for it when asked for microseconds, and encoding fails with
  the generator's error when the generator raises, as it does for a datetime without a time
  zone.  A date encodes as \<^verbatim>\<open>#inst\<close> followed by its quoted ISO 8601 form.  A datetime
  passes the date check as well, but the datetime check comes first, so it receives the
  RFC 3339 rendering.
\<close>

theorem C7_timestamps:
  "Dumper__dump lib self (PDatetime dt) =
     (case pyrfc3339_generate lib dt True of
        Inl e \<Rightarrow> Inl e
      | Inr t \<Rightarrow> Inr (utext ''#inst '' @ [34] @ t @ [34]))
   \<and> Dumper__dump lib self (PDate d) = Inr (utext ''#inst '' @ [34] @ isoformat d @ [34])
   \<and> isinstance lib (PDatetime dt) [C_datetime] \<and> isinstance lib (PDatetime dt) [C_date]
   \<and> \<not> isinstance lib (PDate d) [C_datetime]"
  by (cases "pyrfc3339_generate lib dt True")
     (simp_all add: dump_PDatetime dump_PDate isinstance_def)

theorem C7_timestamps_witness:
  "pyrfc3339_generate python3
      \<lparr>year = 2020, month = 1, day = 2, hour = 3, minute = 4, second = 5, microsecond = 6,
       utcoffset = Some 0\<rparr> True = Inr (utext ''2020-01-02T03:04:05.000006Z'')
   \<and> Dumper__dump python3 plain
      (PDatetime \<lparr>year = 2020, month = 1, day = 2, hour = 3, minute = 4, second = 5,
         microsecond = 6, utcoffset = Some 0\<rparr>)
      = Inr (utext ''#inst '' @ [34] @ utext ''2020-01-02T03:04:05.000006Z'' @ [34])
   \<and> Dumper__dump python3 plain (PDate \<lparr>year = 2020, month = 1, day = 2\<rparr>)
      = Inr (utext ''#inst '' @ [34] @ utext ''2020-01-02'' @ [34])"
proof -
  have g: "pyrfc3339_generate python3
      \<lparr>year = 2020, month = 1, day = 2, hour = 3, minute = 4, second = 5, microsecond = 6,
       utcoffset = Some 0\<rparr> True = Inr (utext ''2020-01-02T03:04:05.000006Z'')"
    by (simp add: python3_def utc_timestamp_def zero_pad_def) code_simp
  have i: "isoformat \<lparr>year = 2020, month = 1, day = 2\<rparr> = utext ''2020-01-02''"
    by code_simp
  from C7_timestamps[of python3 plain
      "\<lparr>year = 2020, month = 1, day = 2, hour = 3, minute = 4, second = 5, microsecond = 6,
        utcoffset = Some 0\<rparr>" "\<lparr>year = 2020, month = 1, day = 2\<rparr>"] g i
  show ?thesis by simp
qed

text \<open>
  Claim C10.  A byte string that decodes under the dumper's input encoding is encoded exactly
  as the decoded text is.  The byte-string check precedes the string check, so this holds
  under Python 2 as well, where a byte string passes the string check too.
\<close>

theorem C10_bytes_like_decoded_text:
  "decode lib b (string_encoding self) = Inr s \<Longrightarrow>
     Dumper__dump lib self (PBytes b) = Dumper__dump lib self (PStr s)
     \<and> Dumper__dump lib self (PBytes b) = Inr (string_literal s)
     \<and> isinstance lib (PBytes b) [C_bytes]
     \<and> isinstance lib (PBytes b) [C_basestring] = (\<not> PY3 lib)"
  by (simp add: dump_PBytes dump_PStr unicode_escape_string_literal isinstance_def)

theorem C10_bytes_like_decoded_text_witness:
  "decode python2 [97, 34, 98] (string_encoding plain) = Inr (utext ''a'' @ [34] @ utext ''b'')
   \<and> Dumper__dump python2 plain (PBytes [97, 34, 98])
       = Dumper__dump python2 plain (PStr (utext ''a'' @ [34] @ utext ''b''))
   \<and> Dumper__dump python2 plain (PBytes [97, 34, 98]) = Inr ([34, 97, 92, 34, 98, 34])
   \<and> isinstance python2 (PBytes [97, 34, 98]) [C_basestring]"
proof -
  have d: "decode python2 [97, 34, 98] (string_encoding plain) = Inr (utext ''a'' @ [34] @ utext ''b'')"
    by (simp add: python2_def plain_def Dumper_init_def ascii_decode_def)
  have l: "string_literal (utext ''a'' @ [34] @ utext ''b'') = [34, 97, 92, 34, 98, 34]"
    by (simp add: string_literal_def escaped_char_def)
  have p: "\<not> PY3 python2" by (simp add: python2_def)
  from C10_bytes_like_decoded_text[OF d] d l p show ?thesis by auto
qed

section \<open>Options without effect, and the output encoding\<close>

text \<open>
  Claim C9 fails on the constructor, whose unfinished last line Python refuses, so that no
  call of the module is accepted.  The rest of the code does what the claim says: for a
  dumper built without that line, the option \<^verbatim>\<open>pretty\<close> changes neither the text nor
  any error, through the method \<^verbatim>\<open>_dump\<close>, the method \<^verbatim>\<open>dump\<close> and the module's
  \<^verbatim>\<open>dump\<close>.
\<close>

lemma pretty_is_ignored:
  "Dumper__dump lib (self\<lparr>pretty := True\<rparr>) obj = Dumper__dump lib (self\<lparr>pretty := False\<rparr>) obj
   \<and> Dumper_dump lib (self\<lparr>pretty := True\<rparr>) obj = Dumper_dump lib (self\<lparr>pretty := False\<rparr>) obj
   \<and> dump lib obj se oe kk sk ss True = dump lib obj se oe kk sk ss False"
proof -
  have a: "Dumper__dump lib (self\<lparr>pretty := p\<rparr>) obj = Dumper__dump lib self obj" for self p
    by (rule dump_options) simp_all
  have b: "Dumper_dump lib (self\<lparr>pretty := p\<rparr>) obj = Dumper_dump lib self obj" for self p
    by (simp add: Dumper_dump_def a)
  have c: "Dumper_init se oe' kk sk ss p = (Dumper_init se oe' kk sk ss False)\<lparr>pretty := p\<rparr>" for oe' p
    by (simp add: Dumper_init_def)
  have "dump lib obj se oe kk sk ss p = dump lib obj se oe kk sk ss False" for p
    unfolding dump_def by (subst c) (simp only: b)
  with a b show ?thesis by simp
qed

text \<open>
  Claim C4, as stated, fails under Python 3: the module's \<^verbatim>\<open>dump\<close> hands the dumper no
  output encoding there, so a call that names the default output encoding returns text.
\<close>

theorem C4_counterexample:
  "dump python3 (PInt 1) DEFAULT_INPUT_ENCODING (Some DEFAULT_OUTPUT_ENCODING)
      False False False False = Inr (Text (utext ''1''))
   \<and> DEFAULT_OUTPUT_ENCODING = utext ''utf-8''"
  by (simp add: dump_def Dumper_dump_def Dumper_init_def dump_PInt python3_def int_text_1
      DEFAULT_OUTPUT_ENCODING_def)

text \<open>
  Claim C4, amended.  When the text of a value is \<open>s\<close>, the method \<^verbatim>\<open>dump\<close> of a dumper
  whose output encoding is set (neither absent nor empty) returns \<open>s\<close> encoded into bytes
  with that encoding, or the encoder's error, and returns \<open>s\<close> as text otherwise.  The
  module's \<^verbatim>\<open>dump\<close> does the same under Python 2 and always returns the text under
  Python 3.
\<close>

theorem C4_output_encoding:
  "Dumper__dump lib (Dumper_init se oe kk sk ss pr) obj = Inr s \<Longrightarrow>
     Dumper_dump lib (Dumper_init se oe kk sk ss pr) obj =
       (case oe of
          None \<Rightarrow> Inr (Text s)
        | Some enc \<Rightarrow>
            if enc = [] then Inr (Text s) else and_then (encode lib s enc) (\<lambda>b. Inr (Bytes b)))
     \<and> dump lib obj se oe kk sk ss pr =
       (if PY3 lib then Inr (Text s) else Dumper_dump lib (Dumper_init se oe kk sk ss pr) obj)"
proof -
  assume s: "Dumper__dump lib (Dumper_init se oe kk sk ss pr) obj = Inr s"
  have "Dumper__dump lib (Dumper_init se None kk sk ss pr) obj
          = Dumper__dump lib (Dumper_init se oe kk sk ss pr) obj"
    by (rule dump_options) (simp_all add: Dumper_init_def)
  with s have n: "Dumper__dump lib (Dumper_init se None kk sk ss pr) obj = Inr s" by simp
  have o: "output_encoding (Dumper_init se x kk sk ss pr) = x" for x
    by (simp add: Dumper_init_def)
  show ?thesis
    by (simp add: dump_def Dumper_dump_def s n o)
qed

theorem C4_output_encoding_witness:
  "Dumper__dump python2
      (Dumper_init (utext ''ascii'') (Some (utext ''ascii'')) False False False False)
      (PStr (utext ''hi'')) = Inr ([34] @ utext ''hi'' @ [34])
   \<and> dump python2 (PStr (utext ''hi'')) (utext ''ascii'') (Some (utext ''ascii''))
        False False False False = Inr (Bytes [34, 104, 105, 34])
   \<and> dump python2 (PStr (utext ''hi'')) (utext ''ascii'') None
        False False False False = Inr (Text ([34] @ utext ''hi'' @ [34]))"
proof -
  have s: "Dumper__dump python2 (Dumper_init (utext ''ascii'') oe False False False False)
      (PStr (utext ''hi'')) = Inr ([34] @ utext ''hi'' @ [34])" for oe
    by (simp add: dump_PStr unicode_escape_string_literal string_literal_def escaped_char_def)
  have e: "encode python2 ([34] @ utext ''hi'' @ [34]) (utext ''ascii'') = Inr [34, 104, 105, 34]"
    by (simp add: python2_def ascii_encode_def)
  have p: "\<not> PY3 python2" by (simp add: python2_def)
  from C4_output_encoding[OF s[of "Some (utext ''ascii'')"]] C4_output_encoding[OF s[of None]] s e p
  show ?thesis by simp
qed

section \<open>Maps: sorting and coercing keys\<close>

lemma sequence_total: "(\<forall>x\<in>set xs. f x = Inr (g x)) \<Longrightarrow> sequence (map f xs) = Inr (map g xs)"
  by (induction xs) simp_all

lemma insort_key_paired:
  "insort_key fst (g x, x) (map (\<lambda>y. (g y, y)) ys) = map (\<lambda>y. (g y, y)) (insort_key g x ys)"
  by (induction ys) simp_all

lemma sort_key_paired:
  "sort_key fst (map (\<lambda>y. (g y, y)) xs) = map (\<lambda>y. (g y, y)) (sort_key g xs)"
  by (induction xs) (simp_all add: insort_key_paired)

lemma sorted_by_key_total:
  assumes "\<forall>x\<in>set xs. f x = Inr (g x)"
  shows "sorted_by_key f xs = Inr (sort_key g xs)"
proof -
  have "zip (map g xs) xs = map (\<lambda>y. (g y, y)) xs"
    by (induction xs) simp_all
  then have "map snd (sort_key fst (zip (map g xs) xs)) = sort_key g xs"
    by (simp add: sort_key_paired comp_def)
  with sequence_total[OF assms] show ?thesis by (simp add: sorted_by_key_def)
qed

lemma keyword_key_coerced: "keyword_key lib (k, v) = (coerced_key k, v)"
  by (cases k) (simp_all add: keyword_key_def coerced_key_def isinstance_def)

lemma keyword_key_coerced_fun: "keyword_key lib = (\<lambda>(k, v). (coerced_key k, v))"
  by (auto simp: keyword_key_coerced)

lemma dump_PDict_sorted:
  assumes "sort_keys self" "\<forall>p\<in>set ps. py_str lib (fst p) = Inr (key p)"
  shows "Dumper__dump lib self (PDict ps) =
     and_then
       (Dumper__dump_seq lib self
          (chain_from_iterable
             (if keyword_keys self then map (keyword_key lib) (sort_key key ps)
              else sort_key key ps)))
       (\<lambda>t. Inr (utext ''{'' @ t @ utext ''}''))"
  using assms(1) sorted_by_key_total[of ps "\<lambda>p. py_str lib (fst p)" key, OF assms(2)]
  by (simp add: dump_PDict)

lemma dump_PImmutableDict_as_PDict:
  "Dumper__dump lib self (PImmutableDict ps) = Dumper__dump lib self (PDict ps)"
  by (simp only: dump_PDict dump_PImmutableDict)

text \<open>
  Claim C8, amended.  With \<^verbatim>\<open>keyword_keys\<close> set, a map, be it a \<^verbatim>\<open>dict\<close> or an
  \<^verbatim>\<open>ImmutableDict\<close>, is encoded from its pairs (sorted first when \<^verbatim>\<open>sort_keys\<close> is
  set) with every key that is text or a byte string replaced by the keyword built from it, and
  every other key unchanged.  A text key \<open>s\<close> so appears as the token made of a colon and
  \<open>s\<close>, not as the quoted string.
\<close>

theorem C8_keyword_keys:
  "keyword_keys self \<Longrightarrow>
     Dumper__dump lib self (PDict ps) =
       and_then
         (if sort_keys self then sorted_by_key (\<lambda>p. py_str lib (fst p)) ps else Inr ps)
         (\<lambda>qs. and_then
            (Dumper__dump_seq lib self
               (chain_from_iterable (map (\<lambda>(k, v). (coerced_key k, v)) qs)))
            (\<lambda>t. Inr (utext ''{'' @ t @ utext ''}'')))
     \<and> Dumper__dump lib self (PImmutableDict ps) =
       and_then
         (if sort_keys self then sorted_by_key (\<lambda>p. py_str lib (fst p)) ps else Inr ps)
         (\<lambda>qs. and_then
            (Dumper__dump_seq lib self
               (chain_from_iterable (map (\<lambda>(k, v). (coerced_key k, v)) qs)))
            (\<lambda>t. Inr (utext ''{'' @ t @ utext ''}'')))
     \<and> coerced_key (PStr s) = PKeyword (PStr s)
     \<and> coerced_key (PBytes b) = PKeyword (PBytes b)
     \<and> Dumper__dump lib self (PKeyword (PStr s)) = Inr (58 # s)
     \<and> Dumper__dump lib self (PKeyword (PStr s)) \<noteq> Dumper__dump lib self (PStr s)
     \<and> (\<forall>k. (\<forall>t. k \<noteq> PStr t) \<and> (\<forall>c. k \<noteq> PBytes c) \<longrightarrow> coerced_key k = k)"
proof -
  assume kk: "keyword_keys self"
  have "coerced_key k = k" if "\<forall>t. k \<noteq> PStr t" "\<forall>c. k \<noteq> PBytes c" for k
    using that by (cases k) (simp_all add: coerced_key_def)
  moreover have "Dumper__dump lib self (PKeyword (PStr s)) \<noteq> Dumper__dump lib self (PStr s)"
    by (simp add: dump_PKeyword dump_PStr unicode_escape_string_literal string_literal_def)
  ultimately show ?thesis
    using kk
    by (simp add: dump_PDict dump_PImmutableDict dump_PKeyword keyword_key_coerced_fun
        coerced_key_def)
qed

theorem C8_keyword_keys_witness:
  "keyword_keys (plain\<lparr>keyword_keys := True\<rparr>)
   \<and> Dumper__dump python3 (plain\<lparr>keyword_keys := True\<rparr>)
        (PDict [(PStr (utext ''x''), PInt 1), (PInt 2, PStr (utext ''y''))])
      = Inr (utext ''{:x 1 2 '' @ [34] @ utext ''y'' @ [34] @ utext ''}'')
   \<and> Dumper__dump python3 (plain\<lparr>keyword_keys := True\<rparr>)
        (PImmutableDict [(PStr (utext ''x''), PInt 1), (PInt 2, PStr (utext ''y''))])
      = Inr (utext ''{:x 1 2 '' @ [34] @ utext ''y'' @ [34] @ utext ''}'')"
proof -
  have kk: "keyword_keys (plain\<lparr>keyword_keys := True\<rparr>)" by simp
  have sk: "\<not> sort_keys (plain\<lparr>keyword_keys := True\<rparr>)"
    by (simp add: plain_def Dumper_init_def)
  have two: "int_text 2 = [50]" by (simp add: int_text_def digits_in_small digit_char_def)
  from C8_keyword_keys[OF kk, of python3 "[(PStr (utext ''x''), PInt 1), (PInt 2, PStr (utext ''y''))]"]
  show ?thesis
    by (simp add: sk coerced_key_def chain_from_iterable_def Dumper__dump_seq.simps
        dump_PKeyword dump_PInt dump_PStr int_text_1 two unicode_escape_string_literal
        string_literal_def escaped_char_def)
qed

text \<open>
  Claim C8, as stated, fails on a byte-string key under Python 3, in a \<^verbatim>\<open>dict\<close> and in an
  \<^verbatim>\<open>ImmutableDict\<close> alike: it is no string there, yet it is made a keyword, whose text is
  a colon and the \<^verbatim>\<open>repr\<close> of the bytes; unchanged, it would have been encoded as a quoted
  string.
\<close>

theorem C8_counterexample:
  "Dumper__dump python3 (plain\<lparr>keyword_keys := True\<rparr>) (PDict [(PBytes [120], PInt 1)])
     = Inr (utext ''{:b'' @ [39] @ utext ''x'' @ [39] @ utext '' 1}'')
   \<and> Dumper__dump python3 (plain\<lparr>keyword_keys := True\<rparr>)
        (PImmutableDict [(PBytes [120], PInt 1)])
     = Inr (utext ''{:b'' @ [39] @ utext ''x'' @ [39] @ utext '' 1}'')
   \<and> Dumper__dump python3 plain (PDict [(PBytes [120], PInt 1)])
     = Inr (utext ''{'' @ [34] @ utext ''x'' @ [34] @ utext '' 1}'')
   \<and> Dumper__dump python3 plain (PImmutableDict [(PBytes [120], PInt 1)])
     = Inr (utext ''{'' @ [34] @ utext ''x'' @ [34] @ utext '' 1}'')
   \<and> \<not> isinstance python3 (PBytes [120]) [C_basestring]"
  by (simp add: dump_PDict dump_PImmutableDict plain_def Dumper_init_def keyword_key_def
      isinstance_def chain_from_iterable_def Dumper__dump_seq.simps dump_PKeyword dump_PInt
      dump_PBytes int_text_1 python3_def bytes_repr_def bytes_repr_char_def ascii_decode_def
      unicode_escape_string_literal string_literal_def escaped_char_def)

text \<open>
  Claim C2, amended.  With both \<^verbatim>\<open>keyword_keys\<close> and \<^verbatim>\<open>sort_keys\<close> set, the pairs of
  a map, be it a \<^verbatim>\<open>dict\<close> or an \<^verbatim>\<open>ImmutableDict\<close>, are first sorted by the text of
  their keys as given (\<open>key p\<close> is that text for the pair \<open>p\<close>), and the keys are made keywords
  afterwards: the pairs are emitted in ascending order of the text of the keys before
  coercion, pairs with the same key text in iteration order.
\<close>

theorem C2_sort_then_coerce:
  "keyword_keys self \<Longrightarrow> sort_keys self \<Longrightarrow> \<forall>p\<in>set ps. py_str lib (fst p) = Inr (key p) \<Longrightarrow>
     Dumper__dump lib self (PDict ps) =
       and_then
         (Dumper__dump_seq lib self
            (chain_from_iterable (map (keyword_key lib) (sort_key key ps))))
         (\<lambda>t. Inr (utext ''{'' @ t @ utext ''}''))
     \<and> Dumper__dump lib self (PImmutableDict ps) =
       and_then
         (Dumper__dump_seq lib self
            (chain_from_iterable (map (keyword_key lib) (sort_key key ps))))
         (\<lambda>t. Inr (utext ''{'' @ t @ utext ''}''))
     \<and> sorted (map key (sort_key key ps))
     \<and> mset (sort_key key ps) = mset ps
     \<and> (\<forall>k. filter (\<lambda>p. key p = k) (sort_key key ps) = filter (\<lambda>p. key p = k) ps)"
proof -
  assume kk: "keyword_keys self" and sk: "sort_keys self"
    and keys: "\<forall>p\<in>set ps. py_str lib (fst p) = Inr (key p)"
  from dump_PDict_sorted[OF sk keys] kk show ?thesis
    by (simp add: sort_key_stable dump_PImmutableDict_as_PDict)
qed

theorem C2_sort_then_coerce_witness:
  "keyword_keys (plain\<lparr>keyword_keys := True, sort_keys := True\<rparr>)
   \<and> sort_keys (plain\<lparr>keyword_keys := True, sort_keys := True\<rparr>)
   \<and> py_str python3 (PStr (utext ''a'')) = Inr (utext ''a'')
   \<and> py_str python3 (PSymbol (utext ''B'')) = Inr (utext ''B'')
   \<and> Dumper__dump python3 (plain\<lparr>keyword_keys := True, sort_keys := True\<rparr>)
        (PDict [(PStr (utext ''a''), PInt 2), (PSymbol (utext ''B''), PInt 1)])
      = Inr (utext ''{B 1 :a 2}'')
   \<and> Dumper__dump python3 (plain\<lparr>keyword_keys := True, sort_keys := True\<rparr>)
        (PImmutableDict [(PStr (utext ''a''), PInt 2), (PSymbol (utext ''B''), PInt 1)])
      = Inr (utext ''{B 1 :a 2}'')"
proof -
  let ?self = "plain\<lparr>keyword_keys := True, sort_keys := True\<rparr>"
  let ?ps = "[(PStr (utext ''a''), PInt 2), (PSymbol (utext ''B''), PInt 1)]"
  let ?key = "\<lambda>p. case fst p of PStr s \<Rightarrow> s | PSymbol s \<Rightarrow> s | _ \<Rightarrow> []"
  have kk: "keyword_keys ?self" and sk: "sort_keys ?self" by simp_all
  have p3: "PY3 python3" by (simp add: python3_def)
  have keys: "\<forall>p\<in>set ?ps. py_str python3 (fst p) = Inr (?key p)"
    by (simp add: py_str_def p3)
  have two: "int_text 2 = [50]" by (simp add: int_text_def digits_in_small digit_char_def)
  from C2_sort_then_coerce[OF kk sk keys] show ?thesis
    by (simp add: py_str_def p3 keyword_key_coerced coerced_key_def chain_from_iterable_def
        Dumper__dump_seq.simps dump_PKeyword dump_PSymbol dump_PInt int_text_1 two)
qed

text \<open>
  Claim C2, as stated, fails, for a \<^verbatim>\<open>dict\<close> and for an \<^verbatim>\<open>ImmutableDict\<close>: a text key
  \<^verbatim>\<open>a\<close> sorts after the keyword \<^verbatim>\<open>:b\<close>, because it is compared before it becomes
  \<^verbatim>\<open>:a\<close>; by the texts after coercion it would come first.
\<close>

theorem C2_counterexample:
  "Dumper__dump python3 (plain\<lparr>keyword_keys := True, sort_keys := True\<rparr>)
        (PDict [(PStr (utext ''a''), PInt 2), (PKeyword (PStr (utext ''b'')), PInt 1)])
      = Inr (utext ''{:b 1 :a 2}'')
   \<and> Dumper__dump python3 (plain\<lparr>keyword_keys := True, sort_keys := True\<rparr>)
        (PImmutableDict [(PStr (utext ''a''), PInt 2), (PKeyword (PStr (utext ''b'')), PInt 1)])
      = Inr (utext ''{:b 1 :a 2}'')
   \<and> py_str python3 (PKeyword (PStr (utext ''a''))) = Inr (utext '':a'')
   \<and> py_str python3 (PKeyword (PStr (utext ''b''))) = Inr (utext '':b'')
   \<and> utext '':a'' < utext '':b''"
proof -
  let ?self = "plain\<lparr>keyword_keys := True, sort_keys := True\<rparr>"
  let ?ps = "[(PStr (utext ''a''), PInt 2), (PKeyword (PStr (utext ''b'')), PInt 1)]"
  let ?key = "\<lambda>p. case fst p of PStr s \<Rightarrow> s | PKeyword (PStr s) \<Rightarrow> 58 # s | _ \<Rightarrow> []"
  have sk: "sort_keys ?self" and kk: "keyword_keys ?self" by simp_all
  have p3: "PY3 python3" by (simp add: python3_def)
  have keys: "\<forall>p\<in>set ?ps. py_str python3 (fst p) = Inr (?key p)"
    by (simp add: py_str_def p3)
  have two: "int_text 2 = [50]" by (simp add: int_text_def digits_in_small digit_char_def)
  from dump_PDict_sorted[OF sk keys] kk show ?thesis
    by (simp add: py_str_def p3 keyword_key_coerced coerced_key_def chain_from_iterable_def
        Dumper__dump_seq.simps dump_PKeyword dump_PInt int_text_1 two
        dump_PImmutableDict_as_PDict)
qed

text \<open>
  Claim C6, amended.  With \<^verbatim>\<open>sort_keys\<close> set, a map, be it a \<^verbatim>\<open>dict\<close> or an
  \<^verbatim>\<open>ImmutableDict\<close>, is encoded from its pairs in ascending order of the text of their keys
  (\<open>key p\<close> is that text for the pair \<open>p\<close>), pairs whose keys have the same text in iteration
  order.  Two maps that hold the same pairs in different iteration orders are encoded alike
  when no two keys have the same text; a map with the text keys \<^verbatim>\<open>b\<close> and \<^verbatim>\<open>a\<close> is
  encoded with \<^verbatim>\<open>a\<close> first.
\<close>

theorem C6_sorted_keys:
  "sort_keys self \<Longrightarrow> \<forall>p\<in>set ps. py_str lib (fst p) = Inr (key p) \<Longrightarrow> mset qs = mset ps \<Longrightarrow>
     Dumper__dump lib self (PDict ps) =
       and_then
         (Dumper__dump_seq lib self
            (chain_from_iterable
               (if keyword_keys self then map (keyword_key lib) (sort_key key ps)
                else sort_key key ps)))
         (\<lambda>t. Inr (utext ''{'' @ t @ utext ''}''))
     \<and> Dumper__dump lib self (PImmutableDict ps) =
       and_then
         (Dumper__dump_seq lib self
            (chain_from_iterable
               (if keyword_keys self then map (keyword_key lib) (sort_key key ps)
                else sort_key key ps)))
         (\<lambda>t. Inr (utext ''{'' @ t @ utext ''}''))
     \<and> sorted (map key (sort_key key ps))
     \<and> mset (sort_key key ps) = mset ps
     \<and> (\<forall>k. filter (\<lambda>p. key p = k) (sort_key key ps) = filter (\<lambda>p. key p = k) ps)
     \<and> (inj_on key (set ps) \<longrightarrow>
          Dumper__dump lib self (PDict qs) = Dumper__dump lib self (PDict ps)
          \<and> Dumper__dump lib self (PImmutableDict qs) = Dumper__dump lib self (PImmutableDict ps))"
proof -
  assume sk: "sort_keys self" and keys: "\<forall>p\<in>set ps. py_str lib (fst p) = Inr (key p)"
    and perm: "mset qs = mset ps"
  from perm have sets: "set qs = set ps" by (rule mset_eq_setD)
  with keys have keys': "\<forall>p\<in>set qs. py_str lib (fst p) = Inr (key p)" by simp
  have "Dumper__dump lib self (PDict qs) = Dumper__dump lib self (PDict ps)"
    if inj: "inj_on key (set ps)"
  proof -
    have "sort_key key qs = sort_key key ps"
    proof (rule sort_key_inj_key_eq)
      show "mset qs = mset (sort_key key ps)" using perm by simp
      show "inj_on key (set qs)" using inj sets by simp
      show "sorted (map key (sort_key key ps))" by simp
    qed
    then show ?thesis
      by (simp add: dump_PDict_sorted[OF sk keys] dump_PDict_sorted[OF sk keys'])
  qed
  then show ?thesis
    by (simp add: dump_PDict_sorted[OF sk keys] dump_PImmutableDict_as_PDict sort_key_stable)
qed

theorem C6_sorted_keys_witness:
  "sort_keys (plain\<lparr>sort_keys := True\<rparr>)
   \<and> mset [(PStr (utext ''a''), PInt 2), (PStr (utext ''b''), PInt 1)]
       = mset [(PStr (utext ''b''), PInt 1), (PStr (utext ''a''), PInt 2)]
   \<and> inj_on (\<lambda>p. text_of (fst p)) (set [(PStr (utext ''b''), PInt 1), (PStr (utext ''a''), PInt 2)])
   \<and> Dumper__dump python3 (plain\<lparr>sort_keys := True\<rparr>)
        (PDict [(PStr (utext ''b''), PInt 1), (PStr (utext ''a''), PInt 2)])
      = Inr ([123, 34] @ utext ''a'' @ [34] @ utext '' 2 '' @ [34] @ utext ''b'' @ [34]
             @ utext '' 1}'')
   \<and> Dumper__dump python3 (plain\<lparr>sort_keys := True\<rparr>)
        (PDict [(PStr (utext ''a''), PInt 2), (PStr (utext ''b''), PInt 1)])
      = Inr ([123, 34] @ utext ''a'' @ [34] @ utext '' 2 '' @ [34] @ utext ''b'' @ [34]
             @ utext '' 1}'')
   \<and> Dumper__dump python3 (plain\<lparr>sort_keys := True\<rparr>)
        (PImmutableDict [(PStr (utext ''b''), PInt 1), (PStr (utext ''a''), PInt 2)])
      = Inr ([123, 34] @ utext ''a'' @ [34] @ utext '' 2 '' @ [34] @ utext ''b'' @ [34]
             @ utext '' 1}'')
   \<and> Dumper__dump python3 (plain\<lparr>sort_keys := True\<rparr>)
        (PImmutableDict [(PStr (utext ''a''), PInt 2), (PStr (utext ''b''), PInt 1)])
      = Inr ([123, 34] @ utext ''a'' @ [34] @ utext '' 2 '' @ [34] @ utext ''b'' @ [34]
             @ utext '' 1}'')"
proof -
  let ?self = "plain\<lparr>sort_keys := True\<rparr>"
  let ?ps = "[(PStr (utext ''b''), PInt 1), (PStr (utext ''a''), PInt 2)]"
  let ?qs = "[(PStr (utext ''a''), PInt 2), (PStr (utext ''b''), PInt 1)]"
  let ?key = "\<lambda>p. text_of (fst p)"
  have sk: "sort_keys ?self" by simp
  have kk: "\<not> keyword_keys ?self" by (simp add: plain_def Dumper_init_def)
  have p3: "PY3 python3" by (simp add: python3_def)
  have keys: "\<forall>p\<in>set ?ps. py_str python3 (fst p) = Inr (?key p)"
    by (simp add: py_str_def p3)
  have inj: "inj_on ?key (set ?ps)" by simp
  have perm: "mset ?qs = mset ?ps" by simp
  have two: "int_text 2 = [50]" by (simp add: int_text_def digits_in_small digit_char_def)
  from C6_sorted_keys[OF sk keys perm] sk kk perm inj show ?thesis
    by (simp add: chain_from_iterable_def Dumper__dump_seq.simps dump_PStr dump_PInt
        int_text_1 two unicode_escape_string_literal string_literal_def escaped_char_def)
qed

text \<open>
  Claim C6, as stated, fails when two keys have the same text, for a \<^verbatim>\<open>dict\<close> and for an
  \<^verbatim>\<open>ImmutableDict\<close>: the integer \<^verbatim>\<open>1\<close> and the text \<^verbatim>\<open>1\<close> keep their iteration
  order, so two maps holding the same pairs are encoded differently.
\<close>

theorem C6_counterexample:
  "Dumper__dump python3 (plain\<lparr>sort_keys := True\<rparr>)
        (PDict [(PInt 1, PSymbol (utext ''x'')), (PStr (utext ''1''), PSymbol (utext ''y''))])
      = Inr (utext ''{1 x '' @ [34] @ utext ''1'' @ [34] @ utext '' y}'')
   \<and> Dumper__dump python3 (plain\<lparr>sort_keys := True\<rparr>)
        (PDict [(PStr (utext ''1''), PSymbol (utext ''y'')), (PInt 1, PSymbol (utext ''x''))])
      = Inr (utext ''{'' @ [34] @ utext ''1'' @ [34] @ utext '' y 1 x}'')
   \<and> Dumper__dump python3 (plain\<lparr>sort_keys := True\<rparr>)
        (PImmutableDict
           [(PInt 1, PSymbol (utext ''x'')), (PStr (utext ''1''), PSymbol (utext ''y''))])
      = Inr (utext ''{1 x '' @ [34] @ utext ''1'' @ [34] @ utext '' y}'')
   \<and> Dumper__dump python3 (plain\<lparr>sort_keys := True\<rparr>)
        (PImmutableDict
           [(PStr (utext ''1''), PSymbol (utext ''y'')), (PInt 1, PSymbol (utext ''x''))])
      = Inr (utext ''{'' @ [34] @ utext ''1'' @ [34] @ utext '' y 1 x}'')
   \<and> mset [(PInt 1, PSymbol (utext ''x'')), (PStr (utext ''1''), PSymbol (utext ''y''))]
       = mset [(PStr (utext ''1''), PSymbol (utext ''y'')), (PInt 1, PSymbol (utext ''x''))]"
proof -
  let ?self = "plain\<lparr>sort_keys := True\<rparr>"
  let ?ps = "[(PInt 1, PSymbol (utext ''x'')), (PStr (utext ''1''), PSymbol (utext ''y''))]"
  let ?qs = "[(PStr (utext ''1''), PSymbol (utext ''y'')), (PInt 1, PSymbol (utext ''x''))]"
  let ?key = "\<lambda>p. utext ''1''"
  have sk: "sort_keys ?self" by simp
  have kk: "\<not> keyword_keys ?self" by (simp add: plain_def Dumper_init_def)
  have p3: "PY3 python3" by (simp add: python3_def)
  have keys: "\<forall>p\<in>set ?ps. py_str python3 (fst p) = Inr (?key p)"
    by (simp add: py_str_def p3 int_text_1)
  have keys': "\<forall>p\<in>set ?qs. py_str python3 (fst p) = Inr (?key p)"
    by (simp add: py_str_def p3 int_text_1)
  from dump_PDict_sorted[OF sk keys] dump_PDict_sorted[OF sk keys'] kk show ?thesis
    by (simp add: chain_from_iterable_def Dumper__dump_seq.simps dump_PStr dump_PInt
        dump_PSymbol int_text_1 unicode_escape_string_literal string_literal_def
        escaped_char_def dump_PImmutableDict_as_PDict)
qed

section \<open>The unsupported-type error\<close>

lemma errors_of_empty: "errors_of r = {} \<longleftrightarrow> (\<exists>x. r = Inr x)"
  by (cases r) (simp_all add: errors_of_def)

lemma errors_of_Inl [simp]: "errors_of (Inl e) = {e}"
  by (simp add: errors_of_def)

lemma errors_of_Inr [simp]: "errors_of (Inr x) = {}"
  by (simp add: errors_of_def)

lemma sequence_Inr_all: "sequence (map f xs) = Inr ys \<Longrightarrow> \<forall>x\<in>set xs. \<exists>y. f x = Inr y"
  by (induction xs arbitrary: ys) (auto simp: and_then_Inr_iff)

lemma sequence_Inl_some: "sequence (map f xs) = Inl e \<Longrightarrow> \<exists>x\<in>set xs. f x = Inl e"
  by (induction xs) (auto simp: and_then_Inl_iff)

lemma sequence_first_error:
  "\<forall>y\<in>set ys. \<exists>s. f y = Inr s \<Longrightarrow> f x = Inl e \<Longrightarrow> sequence (map f (ys @ x # zs)) = Inl e"
  by (induction ys) auto

lemma dump_seq_Inr_all:
  "Dumper__dump_seq lib self xs = Inr t \<Longrightarrow> \<forall>x\<in>set xs. \<exists>y. Dumper__dump lib self x = Inr y"
  unfolding Dumper__dump_seq.simps and_then_Inr_iff by (blast dest: sequence_Inr_all)

lemma dump_seq_Inl_some:
  "Dumper__dump_seq lib self xs = Inl e \<Longrightarrow> \<exists>x\<in>set xs. Dumper__dump lib self x = Inl e"
  unfolding Dumper__dump_seq.simps and_then_Inl_iff by (blast dest: sequence_Inl_some)

lemma dump_seq_first_error:
  "\<forall>y\<in>set ys. \<exists>s. Dumper__dump lib self y = Inr s \<Longrightarrow> Dumper__dump lib self x = Inl e
   \<Longrightarrow> Dumper__dump_seq lib self (ys @ x # zs) = Inl e"
  using sequence_first_error[of ys "Dumper__dump lib self" x e zs]
  by (simp only: Dumper__dump_seq.simps and_then_Inl)

lemma sorted_by_key_Inl_some:
  "sorted_by_key f ps = Inl e \<Longrightarrow> \<exists>p\<in>set ps. f p = Inl e"
  by (auto simp: sorted_by_key_def and_then_Inl_iff dest: sequence_Inl_some)

lemma sorted_by_key_Inr_all:
  "sorted_by_key f ps = Inr qs \<Longrightarrow> \<forall>p\<in>set ps. \<exists>t. f p = Inr t"
  by (auto simp: sorted_by_key_def and_then_Inr_iff dest: sequence_Inr_all)

lemma seq_classified:
  assumes each: "\<forall>x\<in>set ys. classified lib self x"
    and F: "(\<Union>x\<in>set ys. set (foreign x)) = F"
    and R: "(\<Union>x\<in>set ys. raised lib self x) = R"
  shows "case and_then (Dumper__dump_seq lib self ys) (\<lambda>t. Inr (w t)) of
           Inr s \<Rightarrow> F = {} \<and> R = {} | Inl e \<Rightarrow> e \<in> unsupported ` F \<union> R"
proof (cases "Dumper__dump_seq lib self ys")
  case (Inl e)
  then obtain x where x: "x \<in> set ys" "Dumper__dump lib self x = Inl e"
    by (blast dest: dump_seq_Inl_some)
  with each have "e \<in> unsupported ` set (foreign x) \<union> raised lib self x"
    by (auto simp: classified_def)
  with x(1) F R have "e \<in> unsupported ` F \<union> R" by blast
  with Inl show ?thesis by simp
next
  case (Inr t)
  have "foreign x = [] \<and> raised lib self x = {}" if "x \<in> set ys" for x
  proof -
    from Inr that obtain y where "Dumper__dump lib self x = Inr y"
      by (blast dest: dump_seq_Inr_all)
    with each that show ?thesis by (auto simp: classified_def)
  qed
  with F R have "F = {} \<and> R = {}" by auto
  with Inr show ?thesis by simp
qed

lemma container_classified:
  assumes d: "Dumper__dump lib self obj =
      and_then (Dumper__dump_seq lib self ys) (\<lambda>t. Inr (w t))"
    and each: "\<forall>x\<in>set ys. classified lib self x"
    and F: "(\<Union>x\<in>set ys. set (foreign x)) = set (foreign obj)"
    and R: "(\<Union>x\<in>set ys. raised lib self x) = raised lib self obj"
  shows "classified lib self obj"
proof -
  note seq_classified[OF each F R, of w]
  then show ?thesis
    by (simp add: classified_def[of lib self obj] d split: sum.splits)
qed

lemma scalar_classified:
  assumes "foreign obj = []" "raised lib self obj = errors_of (Dumper__dump lib self obj)"
  shows "classified lib self obj"
  using assms by (cases "Dumper__dump lib self obj") (simp_all add: classified_def)

lemma failed_classified:
  assumes "Dumper__dump lib self obj = Inl e" "e \<in> raised lib self obj"
  shows "classified lib self obj"
  using assms by (simp add: classified_def)

lemma errors_of_and_then_Inr [simp]: "errors_of (and_then m (\<lambda>t. Inr (w t))) = errors_of m"
  by (cases m) simp_all

lemma keyword_classified: "classified lib self (PKeyword k)"
  by (rule scalar_classified) (simp_all add: dump_PKeyword)

lemma foreign_keyword_key: "foreign (fst (keyword_key lib p)) = foreign (fst p)"
proof (cases p)
  case (Pair k v)
  then show ?thesis by (cases k) (simp_all add: keyword_key_coerced coerced_key_def)
qed

lemma snd_keyword_key: "snd (keyword_key lib p) = snd p"
  by (cases p) (simp add: keyword_key_coerced)

lemma raised_keyword_key:
  "raised lib self (fst (keyword_key lib (k, v))) =
     (if isinstance lib k [C_bytes, C_basestring]
      then errors_of (py_unicode lib (PKeyword k)) else raised lib self k)"
  by (simp add: keyword_key_def)

lemma foreign_over_chain:
  "(\<Union>x\<in>set (chain_from_iterable L). set (foreign x))
     = (\<Union>p\<in>set L. set (foreign (fst p)) \<union> set (foreign (snd p)))"
  by (force simp: chain_from_iterable_def)

lemma raised_over_chain:
  "(\<Union>x\<in>set (chain_from_iterable L). raised lib self x)
     = (\<Union>p\<in>set L. raised lib self (fst p) \<union> raised lib self (snd p))"
  by (force simp: chain_from_iterable_def)

lemma foreign_chain:
  assumes "set qs = set ps"
  shows "(\<Union>x\<in>set (chain_from_iterable (if kk then map (keyword_key lib) qs else qs)).
            set (foreign x))
         = set (concat (map (\<lambda>(k, v). foreign k @ foreign v) ps))"
proof -
  have "(\<Union>x\<in>set (chain_from_iterable (if kk then map (keyword_key lib) qs else qs)).
            set (foreign x))
        = (\<Union>p\<in>set qs. set (foreign (fst p)) \<union> set (foreign (snd p)))"
    unfolding foreign_over_chain by (simp add: foreign_keyword_key snd_keyword_key)
  also have "\<dots> = set (concat (map (\<lambda>(k, v). foreign k @ foreign v) ps))"
    unfolding assms by (auto simp: case_prod_beta)
  finally show ?thesis .
qed

lemma raised_chain:
  assumes "set qs = set ps"
  shows "(\<Union>x\<in>set (chain_from_iterable (if kk then map (keyword_key lib) qs else qs)).
            raised lib self x)
         = (\<Union>(k, v)\<in>set ps.
              (if kk \<and> isinstance lib k [C_bytes, C_basestring]
               then errors_of (py_unicode lib (PKeyword k)) else raised lib self k)
              \<union> raised lib self v)"
proof -
  have "(\<Union>x\<in>set (chain_from_iterable (if kk then map (keyword_key lib) qs else qs)).
            raised lib self x)
        = (\<Union>p\<in>set qs. raised lib self (if kk then fst (keyword_key lib p) else fst p)
             \<union> raised lib self (snd p))"
    unfolding raised_over_chain by (simp add: snd_keyword_key)
  also have "\<dots> = (\<Union>(k, v)\<in>set ps.
              (if kk \<and> isinstance lib k [C_bytes, C_basestring]
               then errors_of (py_unicode lib (PKeyword k)) else raised lib self k)
              \<union> raised lib self v)"
    unfolding assms by (auto simp: raised_keyword_key split: if_splits)
  finally show ?thesis .
qed


lemma all_classified: "classified lib self obj"
proof (induction obj rule: measure_induct_rule[where f = nesting])
  case (less obj)
  have IH: "classified lib self x" if "nesting x < nesting obj" for x
    using less.IH that by blast
  have lists: "classified lib self obj"
    if xs: "xs = iter_of obj" "foreign obj = concat (map foreign xs)"
      "raised lib self obj = (\<Union>x\<in>set xs. raised lib self x)"
      and d: "Dumper__dump lib self obj = and_then (Dumper__dump_seq lib self xs) (\<lambda>t. Inr (w t))"
    for xs w
  proof -
    have "\<forall>x\<in>set xs. classified lib self x"
      using xs(1) by (auto intro!: IH nesting_iter_of)
    moreover have "(\<Union>x\<in>set xs. set (foreign x)) = set (foreign obj)"
      using xs(2) by simp
    moreover have "(\<Union>x\<in>set xs. raised lib self x) = raised lib self obj"
      using xs(3) by simp
    ultimately show ?thesis
      by (rule container_classified[OF d])
  qed
  have sets: "classified lib self obj"
    if xs: "xs = iter_of obj" "foreign obj = concat (map foreign xs)"
      "raised lib self obj =
         (if sort_sets self then errors_of (sorted_py (less lib) xs) else {})
         \<union> (\<Union>x\<in>set xs. raised lib self x)"
      and d: "Dumper__dump lib self obj =
        and_then (if sort_sets self then sorted_py (less lib) xs else Inr xs)
          (\<lambda>objs. and_then (Dumper__dump_seq lib self objs) (\<lambda>t. Inr (w t)))"
    for xs w
  proof (cases "if sort_sets self then sorted_py (less lib) xs else Inr xs")
    case (Inl e)
    then have "Dumper__dump lib self obj = Inl e" by (simp only: d and_then_Inl)
    moreover from Inl have "e \<in> raised lib self obj"
      unfolding xs(3) by (cases "sort_sets self") simp_all
    ultimately show ?thesis by (rule failed_classified)
  next
    case (Inr ys)
    then have same: "set ys = set xs" by (rule sorted_choice_set)
    from Inr have none: "(if sort_sets self then errors_of (sorted_py (less lib) xs) else {}) = {}"
      by (cases "sort_sets self") simp_all
    have "\<forall>x\<in>set ys. classified lib self x"
      using xs(1) same by (auto intro!: IH nesting_iter_of)
    moreover have "(\<Union>x\<in>set ys. set (foreign x)) = set (foreign obj)"
      using xs(2) same by simp
    moreover have "(\<Union>x\<in>set ys. raised lib self x) = raised lib self obj"
      unfolding xs(3) none using same by simp
    moreover have "Dumper__dump lib self obj =
        and_then (Dumper__dump_seq lib self ys) (\<lambda>t. Inr (w t))"
      by (simp only: d Inr and_then_Inr)
    ultimately show ?thesis
      by (intro container_classified)
  qed
  have dicts: "classified lib self obj"
    if ps: "ps = items_of obj" "foreign obj = concat (map (\<lambda>(k, v). foreign k @ foreign v) ps)"
      "raised lib self obj =
         (if sort_keys self then (\<Union>p\<in>set ps. errors_of (py_str lib (fst p))) else {})
         \<union> (\<Union>(k, v)\<in>set ps.
           (if keyword_keys self \<and> isinstance lib k [C_bytes, C_basestring]
            then errors_of (py_unicode lib (PKeyword k)) else raised lib self k)
           \<union> raised lib self v)"
      and d: "Dumper__dump lib self obj =
        and_then (if sort_keys self then sorted_by_key (\<lambda>p. py_str lib (fst p)) ps else Inr ps)
          (\<lambda>pairs. and_then (Dumper__dump_seq lib self
               (chain_from_iterable
                  (if keyword_keys self then map (keyword_key lib) pairs else pairs)))
             (\<lambda>t. Inr (w t)))"
    for ps w
  proof (cases "if sort_keys self then sorted_by_key (\<lambda>p. py_str lib (fst p)) ps else Inr ps")
    case (Inl e)
    then have "Dumper__dump lib self obj = Inl e" by (simp only: d and_then_Inl)
    moreover from Inl have sk: "sort_keys self"
      and "sorted_by_key (\<lambda>p. py_str lib (fst p)) ps = Inl e"
      by (cases "sort_keys self"; simp)+
    then obtain p where "p \<in> set ps" "py_str lib (fst p) = Inl e"
      by (blast dest: sorted_by_key_Inl_some)
    then have "e \<in> (\<Union>p\<in>set ps. errors_of (py_str lib (fst p)))" by force
    with sk have "e \<in> raised lib self obj" unfolding ps(3) by simp
    ultimately show ?thesis by (rule failed_classified)
  next
    case (Inr qs)
    then have same: "set qs = set ps" by (rule sorted_key_choice_set)
    have none: "(if sort_keys self then (\<Union>p\<in>set ps. errors_of (py_str lib (fst p))) else {}) = {}"
    proof (cases "sort_keys self")
      case True
      with Inr have "sorted_by_key (\<lambda>p. py_str lib (fst p)) ps = Inr qs" by simp
      then have "\<forall>p\<in>set ps. \<exists>t. py_str lib (fst p) = Inr t"
        by (rule sorted_by_key_Inr_all)
      then show ?thesis by auto
    qed simp
    let ?L = "chain_from_iterable (if keyword_keys self then map (keyword_key lib) qs else qs)"
    have each: "classified lib self x" if "x \<in> set ?L" for x
    proof -
      from that obtain k v where kv: "(k, v) \<in> set ps"
        and x: "x = v \<or> x = (if keyword_keys self then fst (keyword_key lib (k, v)) else k)"
        using same by (auto simp: chain_from_iterable_set snd_keyword_key split: if_splits)
      from kv ps(1) have small: "nesting k < nesting obj" "nesting v < nesting obj"
        using nesting_items_of[of "(k, v)" obj] by simp_all
      from x show ?thesis
      proof
        assume "x = v"
        with small show ?thesis by (simp add: IH)
      next
        assume x': "x = (if keyword_keys self then fst (keyword_key lib (k, v)) else k)"
        show ?thesis
        proof (cases "keyword_keys self \<and> isinstance lib k [C_bytes, C_basestring]")
          case True
          with x' have "x = PKeyword k" by (simp add: keyword_key_def)
          then show ?thesis by (simp add: keyword_classified)
        next
          case False
          with x' have "x = k" by (auto simp: keyword_key_def)
          with small show ?thesis by (simp add: IH)
        qed
      qed
    qed
    have "(\<Union>x\<in>set ?L. set (foreign x)) = set (foreign obj)"
      unfolding ps(2) using same by (rule foreign_chain)
    moreover have "(\<Union>x\<in>set ?L. raised lib self x) = raised lib self obj"
      unfolding ps(3) none using raised_chain[OF same, where kk = "keyword_keys self"] by simp
    moreover have "Dumper__dump lib self obj =
        and_then (Dumper__dump_seq lib self ?L) (\<lambda>t. Inr (w t))"
      by (simp only: d Inr and_then_Inr)
    ultimately show ?thesis
      using each by (intro container_classified) simp_all
  qed
  show ?case
  proof (cases obj)
    case (PTuple xs)
    then show ?thesis by (intro lists[of xs]) (simp_all add: dump_PTuple)
  next
    case (PList xs)
    then show ?thesis by (intro lists[of xs]) (simp_all add: dump_PList)
  next
    case (PImmutableList xs)
    then show ?thesis by (intro lists[of xs]) (simp_all add: dump_PImmutableList)
  next
    case (PSet xs)
    then show ?thesis by (intro sets[of xs]) (simp_all add: dump_PSet)
  next
    case (PFrozenset xs)
    then show ?thesis by (intro sets[of xs]) (simp_all add: dump_PFrozenset)
  next
    case (PDict ps)
    then show ?thesis by (intro dicts[of ps]) (simp_all add: dump_PDict)
  next
    case (PImmutableDict ps)
    then show ?thesis by (intro dicts[of ps]) (simp_all add: dump_PImmutableDict)
  next
    case (PObject t r)
    then show ?thesis by (simp add: classified_def dump_PObject)
  next
    case (PBytes b)
    then show ?thesis
      by (cases "decode lib b (string_encoding self)")
         (simp_all add: classified_def dump_PBytes unicode_escape_string_literal)
  next
    case (PFraction n d)
    then show ?thesis
      by (cases "int_str lib n"; cases "int_str lib d")
         (simp_all add: classified_def dump_PFraction)
  qed (auto intro!: scalar_classified simp: dump_simps unicode_escape_string_literal)
qed


lemma foreign_objects: "x \<in> set (foreign obj) \<Longrightarrow> \<exists>t r. x = PObject t r"
  by (induction obj rule: foreign.induct) auto

text \<open>
  Claim C3, amended.  An object of a class outside the variant set makes the encoder raise
  the unsupported-type error, whose message holds the text of the object's class and its
  \<^verbatim>\<open>repr\<close>; the result is then the error alone, with no text.  It is not the only way to
  fail: an operation the encoder calls on a part of the value can raise, and its error then
  is the result, unchanged.  Encoding succeeds exactly when the value holds no object of a
  foreign class and none of these operations raises on a part of it; when it fails, the error
  is the unsupported-type error of an object inside or an error one of these operations
  raises; and a sequence of elements, a tuple or a list fails with the error of the first
  element, in iteration order, whose encoding fails.
\<close>

theorem C3_unsupported_type:
  "Dumper__dump lib self (PObject t r) =
       Inl (NotImplementedError
             (utext ''encountered object of type '' @ [39] @ t @ [39]
                @ utext '' for which no known encoding is available: '' @ r))
   \<and> ((\<exists>s. Dumper__dump lib self obj = Inr s)
        \<longleftrightarrow> foreign obj = [] \<and> raised lib self obj = {})
   \<and> (\<forall>e. Dumper__dump lib self obj = Inl e
          \<longrightarrow> e \<in> unsupported ` set (foreign obj) \<union> raised lib self obj)
   \<and> (\<forall>x\<in>set (foreign obj). \<exists>t r. x = PObject t r)
   \<and> ((\<forall>y\<in>set ys. \<exists>s. Dumper__dump lib self y = Inr s) \<and> Dumper__dump lib self x = Inl e'
        \<longrightarrow> Dumper__dump_seq lib self (ys @ x # zs) = Inl e'
          \<and> Dumper__dump lib self (PTuple (ys @ x # zs)) = Inl e'
          \<and> Dumper__dump lib self (PList (ys @ x # zs)) = Inl e'
          \<and> Dumper__dump lib self (PImmutableList (ys @ x # zs)) = Inl e')"
proof -
  have c: "classified lib self obj" by (rule all_classified)
  have "(\<exists>s. Dumper__dump lib self obj = Inr s)
        \<longleftrightarrow> foreign obj = [] \<and> raised lib self obj = {}"
    using c by (cases "Dumper__dump lib self obj") (auto simp: classified_def)
  moreover have "\<forall>e. Dumper__dump lib self obj = Inl e
          \<longrightarrow> e \<in> unsupported ` set (foreign obj) \<union> raised lib self obj"
    using c by (auto simp: classified_def)
  moreover have "Dumper__dump_seq lib self (ys @ x # zs) = Inl e'"
    if "\<forall>y\<in>set ys. \<exists>s. Dumper__dump lib self y = Inr s" "Dumper__dump lib self x = Inl e'"
    using that by (rule dump_seq_first_error)
  ultimately show ?thesis
    by (simp add: dump_PObject unsupported_def foreign_objects dump_PTuple dump_PList
        dump_PImmutableList)
qed

theorem C3_unsupported_type_witness:
  "Dumper__dump python3 plain
      (PList [PObject (utext ''<class '' @ [39] @ utext ''complex'' @ [39] @ utext ''>'')
                (utext ''1j''), PBytes [255]])
     = Inl (NotImplementedError
             (utext ''encountered object of type '' @ [39]
                @ (utext ''<class '' @ [39] @ utext ''complex'' @ [39] @ utext ''>'') @ [39]
                @ utext '' for which no known encoding is available: '' @ utext ''1j''))
   \<and> Dumper__dump python3 plain
      (PList [PInt 1, PObject (utext ''<class '' @ [39] @ utext ''complex'' @ [39] @ utext ''>'')
                (utext ''1j'')])
     = Inl (NotImplementedError
             (utext ''encountered object of type '' @ [39]
                @ (utext ''<class '' @ [39] @ utext ''complex'' @ [39] @ utext ''>'') @ [39]
                @ utext '' for which no known encoding is available: '' @ utext ''1j''))
   \<and> (\<exists>s. Dumper__dump python3 plain (PList [PInt 1, PStr (utext ''1j'')]) = Inr s)"
proof -
  let ?ty = "utext ''<class '' @ [39] @ utext ''complex'' @ [39] @ utext ''>''"
  let ?o = "PObject ?ty (utext ''1j'')"
  let ?msg = "NotImplementedError
             (utext ''encountered object of type '' @ [39] @ ?ty @ [39]
                @ utext '' for which no known encoding is available: '' @ utext ''1j'')"
  note t = C3_unsupported_type[of python3 plain ?ty "utext ''1j''"]
  have o: "Dumper__dump python3 plain ?o = Inl ?msg"
    using t[of PNone "[]" PNone ?msg "[]"] by simp
  have u: "unsupported ?o = ?msg" by (simp add: unsupported_def)
  have first: "Dumper__dump python3 plain (PList [?o, PBytes [255]]) = Inl ?msg"
    using t[of PNone "[]" ?o ?msg "[PBytes [255]]"] o by simp
  have r1: "raised python3 plain (PList [PInt 1, ?o]) = {}" by simp
  have f1: "foreign (PList [PInt 1, ?o]) = [?o]" by simp
  have second: "Dumper__dump python3 plain (PList [PInt 1, ?o]) = Inl ?msg"
  proof (cases "Dumper__dump python3 plain (PList [PInt 1, ?o])")
    case (Inl e)
    with t[of "PList [PInt 1, ?o]" "[]" PNone ?msg "[]"] have "e = unsupported ?o"
      unfolding r1 f1 by simp
    with Inl u show ?thesis by simp
  next
    case (Inr s)
    with t[of "PList [PInt 1, ?o]" "[]" PNone ?msg "[]"] show ?thesis
      unfolding r1 f1 by simp
  qed
  have r2: "raised python3 plain (PList [PInt 1, PStr (utext ''1j'')]) = {}" by simp
  have f2: "foreign (PList [PInt 1, PStr (utext ''1j'')]) = []" by simp
  have third: "\<exists>s. Dumper__dump python3 plain (PList [PInt 1, PStr (utext ''1j'')]) = Inr s"
    using t[of "PList [PInt 1, PStr (utext ''1j'')]" "[]" PNone ?msg "[]"]
    unfolding r2 f2 by simp
  from first second third show ?thesis by simp
qed

text \<open>
  Claim C3, as stated, fails: a byte string is in the variant set, and one that does not
  decode under the input encoding ends the encoding with the decoder's error, which is not
  the unsupported-type error.
\<close>

theorem C3_counterexample:
  "Dumper__dump python3 plain (PBytes [255]) = Inl UnicodeDecodeError
   \<and> isinstance python3 (PBytes [255]) [C_bytes]
   \<and> string_encoding plain = utext ''ascii''"
  by (simp add: dump_PBytes python3_def plain_def Dumper_init_def ascii_decode_def
      isinstance_def)

end
